theory Spec2Isabelle
  imports Complex_Main "HOL-Library.List_Lexorder"
begin

section \<open>Data model\<close>

text \<open>
  A Python \<open>str\<close> is a sequence of Unicode code points. Strings are compared by code
  point, lexicographically, which is the order \<open>HOL-Library.List_Lexorder\<close> gives to
  lists of naturals.
\<close>

type_synonym ustr = "nat list"

definition u :: "string \<Rightarrow> ustr" where
  \<comment> \<open>An ASCII literal of the source, as code points.\<close>
  "u s = map of_char s"

text \<open>
  The keyword dictionaries \<open>{"word": ..., "weight": ...}\<close> that
  \<open>enforce_keyword_rules\<close> builds and \<open>redistribute_weights\<close> reads and rebuilds.
\<close>

record keyword =
  word :: ustr
  weight :: int

section \<open>scripts/daily_build.py: redistribute\_weights\<close>

text \<open>
  \<^verbatim>\<open>
  n = len(kws)
  if n == 0: return kws
  top3 = min(5, n)
  top3 = max(3, top3) if n >= 3 else n
  remaining = n - top3
  mid2 = min(10, remaining)
  mid2 = max(6, mid2) if remaining >= 6 else remaining
  out = []
  for i, kw in enumerate(kws):
      if i < top3: w = 3
      elif i < top3 + mid2: w = 2
      else: w = 1
      out.append({"word": kw["word"], "weight": w})
  return out
  \<close>
\<close>

definition top3_of :: "int \<Rightarrow> int" where
  "top3_of n = (let top3 = min 5 n in if n \<ge> 3 then max 3 top3 else n)"

definition mid2_of :: "int \<Rightarrow> int" where
  "mid2_of remaining =
     (let mid2 = min 10 remaining in if remaining \<ge> 6 then max 6 mid2 else remaining)"

definition redistribute_weights :: "keyword list \<Rightarrow> keyword list" where
  "redistribute_weights kws =
     (let n = int (length kws) in
      if n = 0 then kws
      else
        let top3 = top3_of n;
            remaining = n - top3;
            mid2 = mid2_of remaining
        in map (\<lambda>(i, kw).
                  \<lparr>word = word kw,
                   weight = (if int i < top3 then 3
                             else if int i < top3 + mid2 then 2
                             else 1)\<rparr>)
               (enumerate 0 kws))"

text \<open>
  The banding rule in the words of the specification: the top band holds the first
  \<open>min 5 n\<close> ranks when \<open>n \<ge> 3\<close> and all \<open>n\<close> otherwise; the middle band holds the
  next \<open>min 10 remaining\<close> ranks when \<open>remaining \<ge> 6\<close> and all the remaining ones
  otherwise; every later rank is in the third band.
\<close>

definition spec_top_band :: "nat \<Rightarrow> nat" where
  "spec_top_band n = (if n \<ge> 3 then min 5 n else n)"

definition spec_mid_band :: "nat \<Rightarrow> nat" where
  "spec_mid_band n =
     (let remaining = n - spec_top_band n
      in if remaining \<ge> 6 then min 10 remaining else remaining)"

definition spec_tier :: "nat \<Rightarrow> nat \<Rightarrow> int" where
  "spec_tier n i =
     (if i < spec_top_band n then 3
      else if i < spec_top_band n + spec_mid_band n then 2
      else 1)"

section \<open>Python values\<close>

text \<open>
  What \<open>json.loads\<close> can return. A float is a rational (every finite double is one),
  an infinity or a NaN; of a float the code only asks whether it is zero and what
  \<open>int\<close> makes of it. A dictionary is an association list read with \<open>map_of\<close>.
\<close>

datatype pyfloat = Float_finite rat | Float_inf | Float_nan

datatype json =
    JNull
  | JBool bool
  | JInt int
  | JFloat pyfloat
  | JStr ustr
  | JArr "json list"
  | JObj "(ustr \<times> json) list"

text \<open>
  The exceptions of the two scripts. \<open>daily_build.py\<close> raises \<open>ValueError\<close> in three
  places, told apart here by what they report: a bad or absent date
  (\<open>ValidationError\<close>), a date already in the archive (\<open>DuplicateDateError\<close>), an
  archive whose root is not a list (\<open>MalformedArchiveError\<close>). \<open>SystemExit\<close> is what
  \<open>die\<close> raises in \<open>gen_keywords.py\<close>, \<open>UnicodeEncodeError\<close> what writing a text that
  has no UTF-8 encoding raises. \<open>Unmodelled\<close> marks the one place where the
  outcome depends on the order in which CPython's sort compares keys that are not
  strings (see \<open>sort_entries_desc\<close>).
\<close>

datatype error =
    ValidationError
  | DuplicateDateError
  | MalformedArchiveError
  | JSONDecodeError
  | AttributeError
  | TypeError
  | KeyError
  | SystemExit
  | UnicodeEncodeError
  | Unmodelled

text \<open>
  The parts of the Python runtime and its libraries the scripts call and that are tables
  or codecs outside the repository: \<open>str.lower\<close>, \<open>unicodedata.normalize("NFD", _)\<close>,
  the test \<open>unicodedata.category(c) == "Mn"\<close>, the characters \<open>\d\<close> matches, \<open>int\<close> on
  a string, \<open>str\<close> on a value that is not a string, \<open>json.loads\<close> and \<open>json.dumps\<close>.
  They are parameters of the model.
\<close>

record runtime =
  py_lower :: "ustr \<Rightarrow> ustr"
  py_nfd :: "ustr \<Rightarrow> ustr"
  py_is_Mn :: "nat \<Rightarrow> bool"
  py_is_digit :: "nat \<Rightarrow> bool"
  py_int_of_str :: "ustr \<Rightarrow> int option"
  py_repr :: "json \<Rightarrow> ustr"
  json_loads :: "ustr \<Rightarrow> json option"
  json_dumps :: "json \<Rightarrow> ustr"

text \<open>
  The characters \<open>str.strip\<close> removes and \<open>\s\<close> matches in a \<open>str\<close> pattern: CPython
  uses one table for both.
\<close>

definition py_isspace :: "nat \<Rightarrow> bool" where
  "py_isspace c \<longleftrightarrow>
     (9 \<le> c \<and> c \<le> 13) \<or> (28 \<le> c \<and> c \<le> 32) \<or> c = 133 \<or> c = 160 \<or> c = 5760
     \<or> (8192 \<le> c \<and> c \<le> 8202) \<or> c = 8232 \<or> c = 8233 \<or> c = 8239 \<or> c = 8287
     \<or> c = 12288"

definition py_strip :: "ustr \<Rightarrow> ustr" where
  "py_strip s = rev (dropWhile py_isspace (rev (dropWhile py_isspace s)))"

text \<open>
  \<open>re.sub(r"\s+", " ", s)\<close>: every maximal run of whitespace becomes one space. The
  flag says whether the previous character was whitespace.
\<close>

fun re_sub_ws :: "bool \<Rightarrow> ustr \<Rightarrow> ustr" where
  "re_sub_ws in_run [] = []"
| "re_sub_ws in_run (c # cs) =
     (if py_isspace c
      then (if in_run then re_sub_ws True cs else 32 # re_sub_ws True cs)
      else c # re_sub_ws False cs)"

fun py_truthy :: "json \<Rightarrow> bool" where
  "py_truthy JNull = False"
| "py_truthy (JBool b) = b"
| "py_truthy (JInt n) = (n \<noteq> 0)"
| "py_truthy (JFloat (Float_finite r)) = (r \<noteq> 0)"
| "py_truthy (JFloat Float_inf) = True"
| "py_truthy (JFloat Float_nan) = True"
| "py_truthy (JStr s) = (s \<noteq> [])"
| "py_truthy (JArr xs) = (xs \<noteq> [])"
| "py_truthy (JObj kvs) = (kvs \<noteq> [])"

definition py_or :: "json \<Rightarrow> json \<Rightarrow> json" where
  "py_or a b = (if py_truthy a then a else b)"

definition dict_get :: "(ustr \<times> json) list \<Rightarrow> ustr \<Rightarrow> json \<Rightarrow> json" where
  \<comment> \<open>\<open>d.get(k, default)\<close>; \<open>d.get(k)\<close> has the default \<open>None\<close>.\<close>
  "dict_get d k dflt = (case map_of d k of None \<Rightarrow> dflt | Some v \<Rightarrow> v)"

text \<open>\<open>int(v)\<close>; \<open>None\<close> stands for the exception it raises.\<close>

fun py_int :: "runtime \<Rightarrow> json \<Rightarrow> int option" where
  "py_int R JNull = None"
| "py_int R (JBool b) = Some (if b then 1 else 0)"
| "py_int R (JInt n) = Some n"
| "py_int R (JFloat (Float_finite r)) = Some (if r < 0 then - \<lfloor>- r\<rfloor> else \<lfloor>r\<rfloor>)"
| "py_int R (JFloat Float_inf) = None"
| "py_int R (JFloat Float_nan) = None"
| "py_int R (JStr s) = py_int_of_str R s"
| "py_int R (JArr xs) = None"
| "py_int R (JObj kvs) = None"

definition py_str :: "runtime \<Rightarrow> json \<Rightarrow> ustr" where
  "py_str R v = (case v of JStr s \<Rightarrow> s | _ \<Rightarrow> py_repr R v)"

section \<open>scripts/daily_build.py: keywords\<close>

text \<open>
  \<^verbatim>\<open>
  def normalize_no_accents(s):
      s = s.strip().lower()
      s = "".join(c for c in unicodedata.normalize("NFD", s)
                  if unicodedata.category(c) != "Mn")
      s = re.sub(r"\s+", " ", s)
      return s
  \<close>
\<close>

definition normalize_no_accents :: "runtime \<Rightarrow> ustr \<Rightarrow> ustr" where
  "normalize_no_accents R s =
     (let s1 = py_lower R (py_strip s);
          s2 = filter (\<lambda>c. \<not> py_is_Mn R c) (py_nfd R s1)
      in re_sub_ws False s2)"

text \<open>
  The loop of \<open>enforce_keyword_rules\<close>, with its two accumulators \<open>cleaned\<close> and
  \<open>seen\<close>. An item that is not a dictionary has no \<open>get\<close>: \<open>AttributeError\<close>.
\<close>

fun enforce_loop ::
  "runtime \<Rightarrow> json list \<Rightarrow> keyword list \<Rightarrow> ustr set \<Rightarrow> error + keyword list" where
  "enforce_loop R [] cleaned seen = Inr cleaned"
| "enforce_loop R (it # items) cleaned seen =
     (case it of
        JObj d \<Rightarrow>
          (let wd = py_or (py_or (dict_get d (u ''word'') JNull) (dict_get d (u ''k'') JNull))
                      (JStr []);
               w0 = py_or (py_or (dict_get d (u ''weight'') JNull) (dict_get d (u ''w'') JNull))
                      (JInt 1);
               w1 = (case py_int R w0 of Some n \<Rightarrow> n | None \<Rightarrow> 1);
               w2 = (if w1 \<ge> 3 then 3 else (if w1 = 2 then 2 else 1));
               wd' = normalize_no_accents R (py_str R wd)
           in if wd' = [] then enforce_loop R items cleaned seen
              else if wd' \<in> seen then enforce_loop R items cleaned seen
              else enforce_loop R items (cleaned @ [\<lparr>word = wd', weight = w2\<rparr>])
                     (insert wd' seen))
      | _ \<Rightarrow> Inl AttributeError)"

text \<open>
  \<open>cleaned.sort(key=lambda x: -x["weight"])\<close> is a stable sort, as \<open>sort_key\<close> is;
  \<open>cleaned[:30]\<close> is \<open>take 30\<close>.
\<close>

definition enforce_keyword_rules :: "runtime \<Rightarrow> json list \<Rightarrow> error + keyword list" where
  "enforce_keyword_rules R items =
     (case enforce_loop R items [] {} of
        Inl e \<Rightarrow> Inl e
      | Inr cleaned \<Rightarrow> Inr (take 30 (sort_key (\<lambda>x. - weight x) cleaned)))"

text \<open>
  The decoder: a document with no text holds no value and \<open>json.loads\<close> raises
  \<open>JSONDecodeError\<close>; on any other text the result is the parameter's.
\<close>

definition py_json_loads :: "runtime \<Rightarrow> ustr \<Rightarrow> json option" where
  "py_json_loads R text = (if text = [] then None else json_loads R text)"

text \<open>
  \<open>call_openai_keywords\<close> from the response on (\<open>output_text\<close> is \<open>resp.output_text\<close>):
  \<^verbatim>\<open>
  data = json.loads(resp.output_text)
  kws = data.get("keywords", [])
  if not isinstance(kws, list): return []
  kws = enforce_keyword_rules(kws)
  kws = redistribute_weights(kws)
  return kws
  \<close>
  Only a dictionary has \<open>get\<close>.
\<close>

definition call_openai_keywords :: "runtime \<Rightarrow> ustr \<Rightarrow> error + keyword list" where
  "call_openai_keywords R output_text =
     (case py_json_loads R output_text of
        None \<Rightarrow> Inl JSONDecodeError
      | Some data \<Rightarrow>
          (case data of
             JObj d \<Rightarrow>
               (case dict_get d (u ''keywords'') (JArr []) of
                  JArr kws \<Rightarrow>
                    (case enforce_keyword_rules R kws of
                       Inl e \<Rightarrow> Inl e
                     | Inr kws' \<Rightarrow> Inr (redistribute_weights kws'))
                | _ \<Rightarrow> Inr [])
           | _ \<Rightarrow> Inl AttributeError))"

text \<open>
  The two steps \<open>call_openai_keywords\<close> applies to the candidate list, the
  specification's \<open>canonicalize\<close> followed by its \<open>retier\<close>:
  \<open>kws = enforce_keyword_rules(kws); kws = redistribute_weights(kws)\<close>.
\<close>

definition canonicalize :: "runtime \<Rightarrow> json list \<Rightarrow> error + keyword list" where
  "canonicalize R items =
     (case enforce_keyword_rules R items of
        Inl e \<Rightarrow> Inl e
      | Inr kws \<Rightarrow> Inr (redistribute_weights kws))"

section \<open>scripts/daily_build.py: the archive\<close>

text \<open>
  The archive file is the state: \<open>None\<close> when the path does not exist, otherwise its
  text.
  \<^verbatim>\<open>
  def load_entries(path):
      if not path.exists(): return []
      data = json.loads(path.read_text(encoding="utf-8"))
      if not isinstance(data, list):
          raise ValueError(f"{path} no contiene una lista JSON en la raiz.")
      return data
  \<close>
\<close>

type_synonym store = "ustr option"

definition load_entries :: "runtime \<Rightarrow> store \<Rightarrow> error + json list" where
  "load_entries R path =
     (case path of
        None \<Rightarrow> Inr []
      | Some text \<Rightarrow>
          (case py_json_loads R text of
             None \<Rightarrow> Inl JSONDecodeError
           | Some data \<Rightarrow>
               (case data of JArr entries \<Rightarrow> Inr entries | _ \<Rightarrow> Inl MalformedArchiveError)))"

fun is_dict :: "json \<Rightarrow> bool" where
  "is_dict (JObj d) = True"
| "is_dict _ = False"

fun is_str :: "json \<Rightarrow> bool" where
  "is_str (JStr s) = True"
| "is_str _ = False"

fun str_val :: "json \<Rightarrow> ustr" where
  "str_val (JStr s) = s"
| "str_val _ = []"

fun date_key :: "json \<Rightarrow> json" where
  \<comment> \<open>\<open>e.get("date", "")\<close> on a dictionary \<open>e\<close>.\<close>
  "date_key (JObj d) = dict_get d (u ''date'') (JStr [])"
| "date_key _ = JNull"

text \<open>
  \<open>sorted(entries, key=lambda e: e.get("date", ""), reverse=True)\<close>. The keys are
  computed first, for every element: one that is not a dictionary raises
  \<open>AttributeError\<close>. With \<open>reverse=True\<close> the sort stays stable: CPython reverses the
  list, sorts it and reverses it again. Strings compare by code point. A list of fewer
  than two elements is compared with nothing. When a string key meets a key of another
  type the comparison raises \<open>TypeError\<close>, and it comes to that whenever both kinds are
  present. When no key is a string and there are two or more, the outcome depends on
  the values and on the order of the comparisons; \<open>main\<close> never sorts such a list,
  because the entry it appends has a string for its date.
\<close>

definition sort_entries_desc :: "json list \<Rightarrow> error + json list" where
  "sort_entries_desc entries =
     (if \<not> list_all is_dict entries then Inl AttributeError
      else if list_all (\<lambda>e. is_str (date_key e)) entries
        then Inr (rev (sort_key (\<lambda>e. str_val (date_key e)) (rev entries)))
      else if length entries < 2 then Inr entries
      else if list_ex (\<lambda>e. is_str (date_key e)) entries then Inl TypeError
      else Inl Unmodelled)"

text \<open>
  The dictionary \<open>build_entry\<close> returns has a fixed set of keys; it is a record here and
  \<open>entry_json\<close> is the value that goes into the archive.
\<close>

record analysis =
  poet :: ustr
  poem_title :: ustr
  poem_snippet :: ustr
  book_title :: ustr

text \<open>The keys \<open>file\<close> and \<open>keywords\<close> are the fields \<open>file_rel\<close> and \<open>keyword_list\<close>.\<close>

record archive_entry =
  date :: ustr
  month :: ustr
  file_rel :: ustr
  my_poem_title :: ustr
  my_poem_snippet :: ustr
  analysis :: analysis
  keyword_list :: "keyword list"

definition keyword_json :: "keyword \<Rightarrow> json" where
  "keyword_json k = JObj [(u ''word'', JStr (word k)), (u ''weight'', JInt (weight k))]"

definition entry_json :: "archive_entry \<Rightarrow> json" where
  "entry_json e =
     JObj [(u ''date'', JStr (date e)),
           (u ''month'', JStr (month e)),
           (u ''file'', JStr (file_rel e)),
           (u ''my_poem_title'', JStr (my_poem_title e)),
           (u ''my_poem_snippet'', JStr (my_poem_snippet e)),
           (u ''analysis'',
              JObj [(u ''poet'', JStr (poet (analysis e))),
                    (u ''poem_title'', JStr (poem_title (analysis e))),
                    (u ''poem_snippet'', JStr (poem_snippet (analysis e))),
                    (u ''book_title'', JStr (book_title (analysis e)))]),
           (u ''keywords'', JArr (map keyword_json (keyword_list e)))]"

text \<open>
  \<open>re.match(r"^\d{4}-\d{2}-\d{2}$", s)\<close>: four digits, a hyphen, two digits, a hyphen,
  two digits; \<open>$\<close> matches at the end of the string and also just before a newline
  that ends it.
\<close>

definition date_shape :: "runtime \<Rightarrow> ustr \<Rightarrow> bool" where
  "date_shape R s \<longleftrightarrow>
     length s = 10
     \<and> list_all (py_is_digit R) (take 4 s) \<and> s ! 4 = 45
     \<and> list_all (py_is_digit R) (take 2 (drop 5 s)) \<and> s ! 7 = 45
     \<and> list_all (py_is_digit R) (drop 8 s)"

definition re_match_date :: "runtime \<Rightarrow> ustr \<Rightarrow> bool" where
  "re_match_date R s \<longleftrightarrow> date_shape R s \<or> (s \<noteq> [] \<and> last s = 10 \<and> date_shape R (butlast s))"

text \<open>
  \<open>meta\<close> is a \<open>Dict[str, str]\<close>; \<open>meta.get(k, "")\<close>:
\<close>

type_synonym meta = "ustr \<rightharpoonup> ustr"

definition meta_get :: "meta \<Rightarrow> ustr \<Rightarrow> ustr" where
  "meta_get m k = (case m k of None \<Rightarrow> [] | Some v \<Rightarrow> v)"

text \<open>
  \<^verbatim>\<open>
  def build_entry(meta, txt_relpath, keywords):
      date = meta.get("date", "").strip()
      if not re.match(r"^\d{4}-\d{2}-\d{2}$", date):
          raise ValueError(...)
      return {"date": date, "month": date[:7], "file": txt_relpath,
              "my_poem_title": meta.get("my_poem_title", "").strip(),
              "my_poem_snippet": meta.get("my_poem_snippet", "").strip(),
              "analysis": {"poet": meta.get("poet", "").strip(),
                           "poem_title": meta.get("poem_title", "").strip(),
                           "poem_snippet": meta.get("poem_snippet", "").strip(),
                           "book_title": meta.get("book_title", "").strip()},
              "keywords": keywords}
  \<close>
\<close>

definition build_entry ::
  "runtime \<Rightarrow> meta \<Rightarrow> ustr \<Rightarrow> keyword list \<Rightarrow> error + archive_entry" where
  "build_entry R m txt_relpath kws =
     (let d = py_strip (meta_get m (u ''date''))
      in if \<not> re_match_date R d then Inl ValidationError
         else Inr \<lparr>date = d,
                   month = take 7 d,
                   file_rel = txt_relpath,
                   my_poem_title = py_strip (meta_get m (u ''my_poem_title'')),
                   my_poem_snippet = py_strip (meta_get m (u ''my_poem_snippet'')),
                   analysis =
                     \<lparr>poet = py_strip (meta_get m (u ''poet'')),
                      poem_title = py_strip (meta_get m (u ''poem_title'')),
                      poem_snippet = py_strip (meta_get m (u ''poem_snippet'')),
                      book_title = py_strip (meta_get m (u ''book_title''))\<rparr>,
                   keyword_list = kws\<rparr>)"

text \<open>
  \<open>any(e.get("date") == entry["date"] for e in entries)\<close>: the generator stops at the
  first equal date; an element that is not a dictionary raises \<open>AttributeError\<close> when
  it is reached. \<open>entry["date"]\<close> is a string, and only an equal string is equal to it.
\<close>

fun any_same_date :: "ustr \<Rightarrow> json list \<Rightarrow> error + bool" where
  "any_same_date d [] = Inr False"
| "any_same_date d (e # es) =
     (case e of
        JObj kvs \<Rightarrow>
          (if dict_get kvs (u ''date'') JNull = JStr d then Inr True
           else any_same_date d es)
      | _ \<Rightarrow> Inl AttributeError)"

text \<open>
  \<open>Path.write_text(data, encoding="utf-8")\<close> opens the file for writing, which empties
  it, and then encodes \<open>data\<close>. A surrogate code point (U+D800 to U+DFFF) has no UTF-8
  encoding: the call raises \<open>UnicodeEncodeError\<close> and the file stays empty. Otherwise
  the file holds \<open>data\<close>. The result is the exception, if any, and the file.
\<close>

definition is_surrogate :: "nat \<Rightarrow> bool" where
  "is_surrogate c \<longleftrightarrow> 55296 \<le> c \<and> c \<le> 57343"

definition write_text :: "ustr \<Rightarrow> error option \<times> store" where
  "write_text data =
     (if list_ex is_surrogate data then (Some UnicodeEncodeError, Some [])
      else (None, Some data))"

text \<open>
  The end of \<open>main\<close>, from the entry on; the result is paired with the archive file
  as it is left.
  \<^verbatim>\<open>
  entries = load_entries(JSON_PATH)
  if any(e.get("date") == entry["date"] for e in entries):
      raise ValueError(f"Ya existe una entrada con date=...")
  entries.append(entry)
  entries = sort_entries_desc(entries)
  JSON_PATH.write_text(json.dumps(entries, ensure_ascii=False, indent=2) + "\n",
                       encoding="utf-8")
  \<close>
  With \<open>ensure_ascii=False\<close> the encoder writes every character of a string as it is,
  a surrogate too.
\<close>

definition merge :: "runtime \<Rightarrow> store \<Rightarrow> archive_entry \<Rightarrow> (error + json list) \<times> store" where
  "merge R path entry =
     (case load_entries R path of
        Inl e \<Rightarrow> (Inl e, path)
      | Inr entries \<Rightarrow>
          (case any_same_date (date entry) entries of
             Inl e \<Rightarrow> (Inl e, path)
           | Inr True \<Rightarrow> (Inl DuplicateDateError, path)
           | Inr False \<Rightarrow>
               (case sort_entries_desc (entries @ [entry_json entry]) of
                  Inl e \<Rightarrow> (Inl e, path)
                | Inr entries' \<Rightarrow>
                    (case write_text (json_dumps R (JArr entries') @ [10]) of
                       (Some e, file) \<Rightarrow> (Inl e, file)
                     | (None, file) \<Rightarrow> (Inr entries', file)))))"

section \<open>scripts/gen\_keywords.py\<close>

definition strip_accents :: "runtime \<Rightarrow> ustr \<Rightarrow> ustr" where
  "strip_accents R s = filter (\<lambda>c. \<not> py_is_Mn R c) (py_nfd R s)"

text \<open>
  \<^verbatim>\<open>
  def normalize_word(s):
      s = (s or "").strip().lower()
      s = strip_accents(s)
      s = re.sub(r"\s+", " ", s)
      return s
  \<close>
  The argument is a \<open>str\<close>, so \<open>s or ""\<close> is \<open>s\<close>.
\<close>

definition normalize_word :: "runtime \<Rightarrow> ustr \<Rightarrow> ustr" where
  "normalize_word R s =
     (let s1 = py_lower R (py_strip s);
          s2 = strip_accents R s1
      in re_sub_ws False s2)"

definition clamp_weight :: "runtime \<Rightarrow> json \<Rightarrow> int" where
  "clamp_weight R w =
     (let w1 = (case py_int R w of Some n \<Rightarrow> n | None \<Rightarrow> 1)
      in if w1 > 3 then 3 else if w1 < 1 then 1 else w1)"

text \<open>
  \<open>re.search(r"(\{.*\}|\[.*\])", t, flags=re.DOTALL)\<close>: the leftmost position where a
  brace is followed, anywhere later, by its closing brace, or a bracket by its closing
  bracket; the match runs to the last such closing character.
\<close>

definition upto_last :: "nat \<Rightarrow> ustr \<Rightarrow> ustr" where
  "upto_last x cs = rev (dropWhile (\<lambda>y. y \<noteq> x) (rev cs))"

fun re_search_block :: "ustr \<Rightarrow> ustr option" where
  "re_search_block [] = None"
| "re_search_block (c # cs) =
     (if c = 123 \<and> 125 \<in> set cs then Some (c # upto_last 125 cs)
      else if c = 91 \<and> 93 \<in> set cs then Some (c # upto_last 93 cs)
      else re_search_block cs)"

text \<open>
  The loop of \<open>parse_keywords_json\<close>:
  \<^verbatim>\<open>
  for item in data:
      if not isinstance(item, dict): continue
      word = normalize_word(str(item.get("word", "")))
      if not word: continue
      weight = clamp_weight(item.get("weight", 1))
      cleaned.append({"word": word, "weight": weight})
  \<close>
\<close>

fun parse_items :: "runtime \<Rightarrow> json list \<Rightarrow> keyword list" where
  "parse_items R [] = []"
| "parse_items R (item # items) =
     (case item of
        JObj d \<Rightarrow>
          (let wd = normalize_word R (py_str R (dict_get d (u ''word'') (JStr [])))
           in if wd = [] then parse_items R items
              else \<lparr>word = wd, weight = clamp_weight R (dict_get d (u ''weight'') (JInt 1))\<rparr>
                   # parse_items R items)
      | _ \<Rightarrow> parse_items R items)"

text \<open>
  What follows the decoding in \<open>parse_keywords_json\<close>:
  \<^verbatim>\<open>
  if isinstance(data, dict) and "keywords" in data:
      data = data["keywords"]
  if not isinstance(data, list):
      die("La respuesta JSON no es una lista de keywords.")
  \<close>
  and then the loop.
\<close>

definition keywords_of_data :: "runtime \<Rightarrow> json \<Rightarrow> error + keyword list" where
  "keywords_of_data R data =
     (let data' = (case data of
                     JObj d \<Rightarrow> (case map_of d (u ''keywords'') of Some v \<Rightarrow> v | None \<Rightarrow> data)
                   | _ \<Rightarrow> data)
      in case data' of
           JArr items \<Rightarrow> Inr (parse_items R items)
         | _ \<Rightarrow> Inl SystemExit)"

text \<open>
  The decoding, with its second attempt on the first block of the stripped text.
\<close>

definition parse_keywords_json :: "runtime \<Rightarrow> ustr \<Rightarrow> error + keyword list" where
  "parse_keywords_json R text =
     (case py_json_loads R text of
        Some data \<Rightarrow> keywords_of_data R data
      | None \<Rightarrow>
          (case re_search_block (py_strip text) of
             Some blk \<Rightarrow>
               (case py_json_loads R blk of
                  Some data \<Rightarrow> keywords_of_data R data
                | None \<Rightarrow> Inl JSONDecodeError)
           | None \<Rightarrow> Inl JSONDecodeError))"

text \<open>
  \<^verbatim>\<open>
  def dedupe_keep_best(keywords):
      seen = {}
      order = []
      for k in keywords:
          w = k["word"]
          if w not in seen:
              seen[w] = k["weight"]
              order.append(w)
          else:
              seen[w] = max(seen[w], k["weight"])
      out = [{"word": w, "weight": seen[w]} for w in order]
      return out
  \<close>
\<close>

fun dedupe_loop ::
  "keyword list \<Rightarrow> (ustr \<rightharpoonup> int) \<Rightarrow> ustr list \<Rightarrow> (ustr \<rightharpoonup> int) \<times> ustr list" where
  "dedupe_loop [] seen order = (seen, order)"
| "dedupe_loop (k # ks) seen order =
     (let w = word k
      in case seen w of
           None \<Rightarrow> dedupe_loop ks (seen(w \<mapsto> weight k)) (order @ [w])
         | Some b \<Rightarrow> dedupe_loop ks (seen(w \<mapsto> max b (weight k))) order)"

fun dedupe_out :: "(ustr \<rightharpoonup> int) \<Rightarrow> ustr list \<Rightarrow> error + keyword list" where
  "dedupe_out seen [] = Inr []"
| "dedupe_out seen (w # ws) =
     (case seen w of
        None \<Rightarrow> Inl KeyError
      | Some b \<Rightarrow>
          (case dedupe_out seen ws of
             Inl e \<Rightarrow> Inl e
           | Inr out \<Rightarrow> Inr (\<lparr>word = w, weight = b\<rparr> # out)))"

definition dedupe_keep_best :: "keyword list \<Rightarrow> error + keyword list" where
  "dedupe_keep_best ks = (case dedupe_loop ks Map.empty [] of (seen, order) \<Rightarrow> dedupe_out seen order)"

text \<open>
  \<open>main\<close>, lines 172 and 173: \<open>kws = dedupe_keep_best(kws); kws = kws[:30]\<close>.
\<close>

definition dedupe_and_cap :: "keyword list \<Rightarrow> error + keyword list" where
  "dedupe_and_cap ks =
     (case dedupe_keep_best ks of Inl e \<Rightarrow> Inl e | Inr out \<Rightarrow> Inr (take 30 out))"

text \<open>
  \<open>main\<close> from the response on (\<open>resp_text\<close> is \<open>resp.text or ""\<close>): an empty response
  and every exception of the parser end in \<open>die\<close>.
\<close>

definition gen_keywords_main :: "runtime \<Rightarrow> ustr \<Rightarrow> error + keyword list" where
  "gen_keywords_main R resp_text =
     (let raw = py_strip resp_text
      in if raw = [] then Inl SystemExit
         else case parse_keywords_json R raw of
                Inl e \<Rightarrow> Inl SystemExit
              | Inr kws \<Rightarrow> dedupe_and_cap kws)"

section \<open>Notions of the specification\<close>

text \<open>
  A word is lowercase when \<open>str.lower\<close> leaves each of its characters alone,
  accent-free when no character of it carries a mark, that is, when the canonical
  decomposition (NFD) of each of its characters holds no combining mark (category
  \<open>Mn\<close>): a precomposed accented letter is not accent-free, nor is a bare mark. It is
  whitespace-collapsed when its only whitespace is single spaces.
\<close>

definition lowercase :: "runtime \<Rightarrow> ustr \<Rightarrow> bool" where
  "lowercase R w = list_all (\<lambda>c. py_lower R [c] = [c]) w"

definition accent_free :: "runtime \<Rightarrow> ustr \<Rightarrow> bool" where
  "accent_free R w = list_all (\<lambda>c. list_all (\<lambda>d. \<not> py_is_Mn R d) (py_nfd R [c])) w"

fun ws_collapsed :: "ustr \<Rightarrow> bool" where
  "ws_collapsed [] = True"
| "ws_collapsed [c] = (py_isspace c \<longrightarrow> c = 32)"
| "ws_collapsed (c # d # cs) =
     ((py_isspace c \<longrightarrow> c = 32 \<and> \<not> py_isspace d) \<and> ws_collapsed (d # cs))"

text \<open>
  A keyword list is canonical when it has the properties the specification gives a
  canonical keyword: every word is non-empty, lowercase, accent-free and
  whitespace-collapsed, every weight is 1, 2 or 3, and no word occurs twice. It is in
  normal form when, more than that, normalisation leaves every word as it is. It is
  tiered when its weights are those the banding rule gives to its ranks.
\<close>

definition canonical :: "runtime \<Rightarrow> keyword list \<Rightarrow> bool" where
  "canonical R ks \<longleftrightarrow>
     list_all (\<lambda>k. word k \<noteq> [] \<and> lowercase R (word k) \<and> accent_free R (word k)
                   \<and> ws_collapsed (word k) \<and> weight k \<in> {1, 2, 3}) ks
     \<and> distinct (map word ks)"

definition normal_form :: "runtime \<Rightarrow> keyword list \<Rightarrow> bool" where
  "normal_form R ks \<longleftrightarrow>
     list_all (\<lambda>k. normalize_no_accents R (word k) = word k \<and> word k \<noteq> []) ks
     \<and> distinct (map word ks)"

definition tiered :: "keyword list \<Rightarrow> bool" where
  "tiered ks \<longleftrightarrow> map weight ks = map (spec_tier (length ks)) [0..<length ks]"


definition has_date :: "ustr \<Rightarrow> json \<Rightarrow> bool" where
  "has_date d e = (case e of JObj kvs \<Rightarrow> dict_get kvs (u ''date'') JNull = JStr d | _ \<Rightarrow> False)"


text \<open>
  What the loop of \<open>enforce_keyword_rules\<close> keeps true of \<open>cleaned\<close> and \<open>seen\<close>.
\<close>

definition cleaned_inv :: "runtime \<Rightarrow> keyword list \<Rightarrow> ustr set \<Rightarrow> bool" where
  "cleaned_inv R cleaned seen \<longleftrightarrow>
     set (map word cleaned) = seen \<and> distinct (map word cleaned)
     \<and> list_all (\<lambda>k. word k \<noteq> [] \<and> (\<exists>s. word k = normalize_no_accents R s)
                      \<and> weight k \<in> {1, 2, 3}) cleaned"

text \<open>
  The order of first appearance: each element once, where it first occurs; \<open>A\<close> holds
  what has been met.
\<close>

fun first_occ :: "'a set \<Rightarrow> 'a list \<Rightarrow> 'a list" where
  "first_occ A [] = []"
| "first_occ A (x # xs) = (if x \<in> A then first_occ A xs else x # first_occ (insert x A) xs)"

section \<open>A small runtime for examples\<close>

text \<open>
  ASCII and Latin-1 letters, the accented letters of Spanish with their canonical
  decompositions, the combining marks U+0300 to U+036F and the ASCII digits. The
  examples below stay within this range; none of them needs \<open>str\<close> of a value that is
  not a string, which is empty here.
\<close>

definition sample_lower :: "nat \<Rightarrow> nat" where
  "sample_lower c =
     (if (65 \<le> c \<and> c \<le> 90) \<or> (192 \<le> c \<and> c \<le> 214) \<or> (216 \<le> c \<and> c \<le> 222)
      then c + 32 else c)"

definition sample_decomp :: "nat \<Rightarrow> ustr" where
  "sample_decomp c =
     (if c = 225 then [97, 769] else if c = 233 then [101, 769]
      else if c = 237 then [105, 769] else if c = 243 then [111, 769]
      else if c = 250 then [117, 769] else if c = 252 then [117, 776]
      else if c = 241 then [110, 771] else [c])"

definition sample_int :: "ustr \<Rightarrow> int option" where
  "sample_int s =
     (if s \<noteq> [] \<and> list_all (\<lambda>c. 48 \<le> c \<and> c \<le> 57) s
      then Some (foldl (\<lambda>a c. 10 * a + (int c - 48)) 0 s) else None)"

text \<open>
  The decoder of the small runtime knows five documents: the empty array, the empty
  object, one keyword as a flat list and under the key \<open>keywords\<close>, and an archive of
  one entry.
\<close>

definition quoted :: "string \<Rightarrow> ustr" where
  \<comment> \<open>An ASCII literal between double quotes.\<close>
  "quoted s = 34 # u s @ [34]"

definition sample_keyword_text :: ustr where
  \<comment> \<open>\<open>{"word": "a", "weight": 3}\<close>\<close>
  "sample_keyword_text =
     u ''{'' @ quoted ''word'' @ u '': '' @ quoted ''a'' @ u '', '' @ quoted ''weight''
       @ u '': 3}''"

definition sample_flat_text :: ustr where
  "sample_flat_text = u ''['' @ sample_keyword_text @ u '']''"

definition sample_object_text :: ustr where
  "sample_object_text = u ''{'' @ quoted ''keywords'' @ u '': ['' @ sample_keyword_text @ u '']}''"

definition sample_keyword_value :: json where
  "sample_keyword_value = JObj [(u ''word'', JStr (u ''a'')), (u ''weight'', JInt 3)]"

definition sample_archive_text :: ustr where
  \<comment> \<open>\<open>[{"date": "2025-02-01"}]\<close>\<close>
  "sample_archive_text = u ''[{'' @ quoted ''date'' @ u '': '' @ quoted ''2025-02-01'' @ u ''}]''"

definition sample_loads :: "ustr \<Rightarrow> json option" where
  "sample_loads t =
     (if t = u ''[]'' then Some (JArr [])
      else if t = u ''{}'' then Some (JObj [])
      else if t = sample_flat_text then Some (JArr [sample_keyword_value])
      else if t = sample_object_text
        then Some (JObj [(u ''keywords'', JArr [sample_keyword_value])])
      else if t = sample_archive_text
        then Some (JArr [JObj [(u ''date'', JStr (u ''2025-02-01''))]])
      else None)"

text \<open>
  The encoder of the small runtime is \<open>json.dumps(v, ensure_ascii=False, indent=2)\<close> on
  values without floats: an empty array is \<open>[]\<close> and an empty object \<open>{}\<close>; the items of
  another one stand on lines of their own, two spaces deeper, separated by a comma, and
  a key is followed by a colon and a space. In a string the quote, the backslash and
  the control characters are escaped and every other character is written as it is.
  A float, which no example holds, is written as its integer part followed by \<open>.0\<close>.
\<close>

fun sample_dec :: "nat \<Rightarrow> ustr" where
  "sample_dec n = (if n < 10 then [48 + n] else sample_dec (n div 10) @ [48 + n mod 10])"

declare sample_dec.simps [simp del]

definition sample_dumps_int :: "int \<Rightarrow> ustr" where
  "sample_dumps_int i = (if i < 0 then 45 # sample_dec (nat (- i)) else sample_dec (nat i))"

definition sample_hex :: "nat \<Rightarrow> nat" where
  "sample_hex d = (if d < 10 then 48 + d else 87 + d)"

definition sample_escape :: "nat \<Rightarrow> ustr" where
  "sample_escape c =
     (if c = 34 then [92, 34] else if c = 92 then [92, 92]
      else if c = 10 then [92, 110] else if c = 13 then [92, 114]
      else if c = 9 then [92, 116] else if c = 8 then [92, 98]
      else if c = 12 then [92, 102]
      else if c < 32 then [92, 117, 48, 48, sample_hex (c div 16), sample_hex (c mod 16)]
      else [c])"

definition sample_dumps_str :: "ustr \<Rightarrow> ustr" where
  "sample_dumps_str s = 34 # concat (map sample_escape s) @ [34]"

fun sample_join :: "ustr \<Rightarrow> ustr list \<Rightarrow> ustr" where
  "sample_join sep [] = []"
| "sample_join sep [x] = x"
| "sample_join sep (x # y # ys) = x @ sep @ sample_join sep (y # ys)"

definition sample_block :: "nat \<Rightarrow> nat \<Rightarrow> nat \<Rightarrow> ustr list \<Rightarrow> ustr" where
  \<comment> \<open>The items between an opening and a closing bracket, at depth \<open>n\<close>.\<close>
  "sample_block n l r xs =
     (if xs = [] then [l, r]
      else [l, 10] @ replicate (2 * Suc n) 32
           @ sample_join ([44, 10] @ replicate (2 * Suc n) 32) xs
           @ [10] @ replicate (2 * n) 32 @ [r])"

fun sample_dumps_at :: "nat \<Rightarrow> json \<Rightarrow> ustr" where
  "sample_dumps_at n JNull = u ''null''"
| "sample_dumps_at n (JBool b) = (if b then u ''true'' else u ''false'')"
| "sample_dumps_at n (JInt i) = sample_dumps_int i"
| "sample_dumps_at n (JFloat (Float_finite r)) =
     sample_dumps_int (if r < 0 then - \<lfloor>- r\<rfloor> else \<lfloor>r\<rfloor>) @ u ''.0''"
| "sample_dumps_at n (JFloat Float_inf) = u ''Infinity''"
| "sample_dumps_at n (JFloat Float_nan) = u ''NaN''"
| "sample_dumps_at n (JStr s) = sample_dumps_str s"
| "sample_dumps_at n (JArr xs) = sample_block n 91 93 (map (sample_dumps_at (Suc n)) xs)"
| "sample_dumps_at n (JObj kvs) =
     sample_block n 123 125
       (map (\<lambda>kv. sample_dumps_str (fst kv) @ [58, 32] @ sample_dumps_at (Suc n) (snd kv)) kvs)"

definition sample_dumps :: "json \<Rightarrow> ustr" where
  "sample_dumps v = sample_dumps_at 0 v"

definition sample_runtime :: runtime where
  "sample_runtime =
     \<lparr>py_lower = map sample_lower,
      py_nfd = (\<lambda>s. concat (map sample_decomp s)),
      py_is_Mn = (\<lambda>c. 768 \<le> c \<and> c \<le> 879),
      py_is_digit = (\<lambda>c. 48 \<le> c \<and> c \<le> 57),
      py_int_of_str = sample_int,
      py_repr = (\<lambda>v. []),
      json_loads = sample_loads,
      json_dumps = sample_dumps\<rparr>"

text \<open>
  The entry of the small runtime's archive, and three new entries: one for the first of
  January 2025, one for the first of February, the date the archive already has, and
  one for the first of January whose snippet is the code point U+DC80, a lone surrogate:
  what Python makes of a byte \<open>0x80\<close> in the argument of \<open>--my-poem-snippet\<close>.
\<close>

definition feb_entry :: json where
  "feb_entry = JObj [(u ''date'', JStr (u ''2025-02-01''))]"

definition blank_analysis :: analysis where
  "blank_analysis = \<lparr>poet = [], poem_title = [], poem_snippet = [], book_title = []\<rparr>"


definition feb_new :: archive_entry where
  "feb_new =
     \<lparr>date = u ''2025-02-01'', month = u ''2025-02'', file_rel = u ''textos/2025-02-01.txt'',
      my_poem_title = [], my_poem_snippet = [], analysis = blank_analysis, keyword_list = []\<rparr>"


section \<open>Properties of redistribute\_weights\<close>

lemma length_redistribute_weights:
  "length (redistribute_weights kws) = length kws"
  by (simp add: redistribute_weights_def Let_def)

lemma nth_enumerate0:
  "i < length xs \<Longrightarrow> enumerate 0 xs ! i = (i, xs ! i)"
  by (simp add: enumerate_eq_zip)


lemma top3_of_spec: "top3_of (int n) = int (spec_top_band n)"
  unfolding top3_of_def spec_top_band_def Let_def by auto

lemma spec_top_band_le: "spec_top_band n \<le> n"
  unfolding spec_top_band_def by auto

lemma mid2_of_int: "mid2_of (int m) = int (if m \<ge> 6 then min 10 m else m)"
  unfolding mid2_of_def Let_def by auto

lemma mid2_of_spec:
  "mid2_of (int n - int (spec_top_band n)) = int (spec_mid_band n)"
proof -
  have "int n - int (spec_top_band n) = int (n - spec_top_band n)"
    using spec_top_band_le [of n] by linarith
  then have "mid2_of (int n - int (spec_top_band n)) = mid2_of (int (n - spec_top_band n))"
    by (rule arg_cong)
  also have "\<dots> = int (spec_mid_band n)"
    unfolding mid2_of_int spec_mid_band_def Let_def by (rule refl)
  finally show ?thesis .
qed

lemma nth_redistribute_weights:
  assumes "i < length kws"
  shows "redistribute_weights kws ! i =
           \<lparr>word = word (kws ! i), weight = spec_tier (length kws) i\<rparr>"
proof -
  from assms have n0: "int (length kws) \<noteq> 0" by auto
  have e: "enumerate 0 kws ! i = (i, kws ! i)"
    using assms by (rule nth_enumerate0)
  have "redistribute_weights kws ! i =
      (\<lambda>(i, kw).
                  \<lparr>word = word kw,
                   weight = (if int i < int (spec_top_band (length kws)) then 3
                             else if int i < int (spec_top_band (length kws)) + int (spec_mid_band (length kws)) then 2
                             else 1)\<rparr>) (enumerate 0 kws ! i)"
    unfolding redistribute_weights_def Let_def top3_of_spec mid2_of_spec
    using n0 assms by simp
  also have "\<dots> = \<lparr>word = word (kws ! i), weight = spec_tier (length kws) i\<rparr>"
    unfolding e spec_tier_def by simp
  finally show ?thesis .
qed

lemma spec_tier_range: "spec_tier n i \<in> {1, 2, 3}"
  by (simp add: spec_tier_def)

lemma map_weight_redistribute_weights:
  "map weight (redistribute_weights kws) = map (spec_tier (length kws)) [0..<length kws]"
  by (rule nth_equalityI)
    (simp_all add: length_redistribute_weights nth_redistribute_weights)

lemma map_word_redistribute_weights:
  "map word (redistribute_weights kws) = map word kws"
  by (rule nth_equalityI)
    (simp_all add: length_redistribute_weights nth_redistribute_weights)

text \<open>
  C1. For a keyword list of size \<open>n\<close>, \<open>redistribute_weights\<close> gives weight 3 to the
  first \<open>min 5 n\<close> entries when \<open>n \<ge> 3\<close> (to all \<open>n\<close> when \<open>n < 3\<close>), weight 2 to the
  next band of \<open>min 10 remaining\<close> entries when \<open>remaining \<ge> 6\<close> (to all remaining ones
  otherwise) and weight 1 to every later entry; every output weight is 1, 2 or 3; and
  the output weights are determined by the rank and the list size alone, whatever
  weights the input carried.
\<close>

theorem redistribute_weights_tiers:
  "length (redistribute_weights kws) = length kws
   \<and> (\<forall>i < length kws.
        weight (redistribute_weights kws ! i) = spec_tier (length kws) i
      \<and> weight (redistribute_weights kws ! i) \<in> {1, 2, 3})
   \<and> (\<forall>kws'. length kws' = length kws \<longrightarrow>
        map weight (redistribute_weights kws') = map weight (redistribute_weights kws))"
proof (intro conjI allI impI)
  show "length (redistribute_weights kws) = length kws"
    by (rule length_redistribute_weights)
next
  fix i assume "i < length kws"
  then show "weight (redistribute_weights kws ! i) = spec_tier (length kws) i"
    by (simp add: nth_redistribute_weights)
next
  fix i assume "i < length kws"
  then have "weight (redistribute_weights kws ! i) = spec_tier (length kws) i"
    by (simp add: nth_redistribute_weights)
  then show "weight (redistribute_weights kws ! i) \<in> {1, 2, 3}"
    using spec_tier_range [of "length kws" i] by simp
next
  fix kws' :: "keyword list" assume "length kws' = length kws"
  then show "map weight (redistribute_weights kws') = map weight (redistribute_weights kws)"
    by (simp add: map_weight_redistribute_weights)
qed


text \<open>
  The rule at work on seven keywords that all arrive with weight 1: five of them get
  weight 3 and the two that remain get weight 2.
\<close>

theorem redistribute_weights_tiers_witness:
  "map weight (redistribute_weights
      (map (\<lambda>w. \<lparr>word = [w], weight = 1\<rparr>) [97, 98, 99, 100, 101, 102, 103]))
   = [3, 3, 3, 3, 3, 2, 2]"
proof -
  let ?kws = "map (\<lambda>w. \<lparr>word = [w], weight = (1::int)\<rparr>) [97, 98, 99, 100, 101, 102, 103::nat]"
  have len: "length ?kws = 7" by simp
  have tl: "length (redistribute_weights ?kws) = length ?kws
      \<and> (\<forall>i < length ?kws.
        weight (redistribute_weights ?kws ! i) = spec_tier (length ?kws) i)"
    using redistribute_weights_tiers [of ?kws] by blast
  have l: "length (redistribute_weights ?kws) = 7"
    and t: "\<forall>i < 7. weight (redistribute_weights ?kws ! i) = spec_tier 7 i"
    using tl unfolding len by blast+
  have "map weight (redistribute_weights ?kws) = map (spec_tier 7) [0..<7]"
    by (rule nth_equalityI) (use t l len in \<open>simp_all\<close>)
  also have "\<dots> = [3, 3, 3, 3, 3, 2, 2]"
    by (simp add: upt_rec spec_tier_def spec_top_band_def spec_mid_band_def)
  finally show ?thesis .
qed

text \<open>
  C10. \<open>redistribute_weights\<close> returns a list of the same length whose words are the
  input's words in the same order: only the weights change.
\<close>

theorem redistribute_weights_frame:
  "length (redistribute_weights kws) = length kws
   \<and> map word (redistribute_weights kws) = map word kws"
  by (simp add: length_redistribute_weights map_word_redistribute_weights)

section \<open>Keys and dictionaries\<close>

lemma u_eq_iff: "u a = u b \<longleftrightarrow> a = b"
  unfolding u_def by (simp add: inj_map_eq_map inj_of_char)

section \<open>Normalisation\<close>

lemma set_re_sub_ws: "set (re_sub_ws b s) \<subseteq> insert 32 (set s)"
  by (induction s arbitrary: b) auto

lemma py_isspace_32: "py_isspace 32"
  by (simp add: py_isspace_def)

lemma re_sub_ws_True_head:
  "re_sub_ws True s = [] \<or> \<not> py_isspace (hd (re_sub_ws True s))"
  by (induction s) auto

lemma ws_collapsed_Cons_nonspace:
  "\<not> py_isspace c \<Longrightarrow> ws_collapsed (c # w) = ws_collapsed w"
  by (cases w) auto

lemma ws_collapsed_space_Cons:
  "w = [] \<or> \<not> py_isspace (hd w) \<Longrightarrow> ws_collapsed (32 # w) = ws_collapsed w"
  by (cases w) (auto simp: py_isspace_32)

lemma ws_collapsed_re_sub_ws: "ws_collapsed (re_sub_ws b s)"
proof (induction s arbitrary: b)
  case Nil
  show ?case by simp
next
  case (Cons c cs)
  show ?case
  proof (cases "py_isspace c")
    case False
    then show ?thesis
      using Cons.IH [of False] by (simp add: ws_collapsed_Cons_nonspace)
  next
    case True
    then show ?thesis
      using Cons.IH [of True] re_sub_ws_True_head [of cs]
      by (simp add: ws_collapsed_space_Cons)
  qed
qed

lemma ws_collapsed_normalize: "ws_collapsed (normalize_no_accents R s)"
  by (simp add: normalize_no_accents_def Let_def ws_collapsed_re_sub_ws)

lemma accent_free_normalize:
  assumes stable: "\<And>t c. c \<in> set (py_nfd R t) \<Longrightarrow> py_nfd R [c] = [c]"
    and space: "py_nfd R [32] = [32]" "\<not> py_is_Mn R 32"
  shows "accent_free R (normalize_no_accents R s)"
proof -
  have "list_all (\<lambda>d. \<not> py_is_Mn R d) (py_nfd R [c])"
    if "c \<in> set (normalize_no_accents R s)" for c
  proof -
    from that have "c \<in> insert 32 (set (filter (\<lambda>c. \<not> py_is_Mn R c)
        (py_nfd R (py_lower R (py_strip s)))))"
      using set_re_sub_ws unfolding normalize_no_accents_def Let_def by blast
    then consider "c = 32" | "c \<in> set (py_nfd R (py_lower R (py_strip s)))" "\<not> py_is_Mn R c"
      by auto
    then show ?thesis
    proof cases
      case 1
      then show ?thesis using space by simp
    next
      case 2
      from stable [OF 2(1)] 2(2) show ?thesis by simp
    qed
  qed
  then show ?thesis
    by (simp add: accent_free_def list_all_iff)
qed

lemma lowercase_normalize:
  assumes lower_out: "\<And>t. lowercase R (py_lower R t)"
    and nfd_keeps: "\<And>t. lowercase R t \<Longrightarrow> lowercase R (py_nfd R t)"
    and space: "py_lower R [32] = [32]"
  shows "lowercase R (normalize_no_accents R s)"
proof -
  have n: "lowercase R (py_nfd R (py_lower R (py_strip s)))"
    by (rule nfd_keeps) (rule lower_out)
  have "py_lower R [c] = [c]" if "c \<in> set (normalize_no_accents R s)" for c
  proof -
    from that have "c \<in> insert 32 (set (filter (\<lambda>c. \<not> py_is_Mn R c) (py_nfd R (py_lower R (py_strip s)))))"
      using set_re_sub_ws unfolding normalize_no_accents_def Let_def by blast
    then show ?thesis using n space by (auto simp: lowercase_def list_all_iff)
  qed
  then show ?thesis
    by (simp add: lowercase_def list_all_iff)
qed

lemma normalize_word_eq: "normalize_word R s = normalize_no_accents R s"
  by (simp add: normalize_word_def normalize_no_accents_def strip_accents_def)

section \<open>The loop of enforce\_keyword\_rules\<close>

lemma cleaned_inv_empty: "cleaned_inv R [] {}"
  by (simp add: cleaned_inv_def)

lemma cleaned_inv_snoc:
  assumes "cleaned_inv R cleaned seen" "w \<noteq> []" "w \<notin> seen"
    "w = normalize_no_accents R s" "n \<in> {1, 2, 3}"
  shows "cleaned_inv R (cleaned @ [\<lparr>word = w, weight = n\<rparr>]) (insert w seen)"
  using assms unfolding cleaned_inv_def by auto

lemma enforce_loop_inv:
  "enforce_loop R items cleaned seen = Inr out \<Longrightarrow> cleaned_inv R cleaned seen
   \<Longrightarrow> cleaned_inv R out (set (map word out))"
proof (induction items arbitrary: cleaned seen)
  case Nil
  then show ?case by (auto simp: cleaned_inv_def)
next
  case (Cons it items)
  from Cons.prems(1) obtain d where it: "it = JObj d"
    by (cases it) auto
  define wd where "wd = normalize_no_accents R (py_str R
      (py_or (py_or (dict_get d (u ''word'') JNull) (dict_get d (u ''k'') JNull)) (JStr [])))"
  define w1 where "w1 = (case py_int R
      (py_or (py_or (dict_get d (u ''weight'') JNull) (dict_get d (u ''w'') JNull)) (JInt 1))
      of Some n \<Rightarrow> n | None \<Rightarrow> 1)"
  define w2 :: int where "w2 = (if w1 \<ge> 3 then 3 else (if w1 = 2 then 2 else 1))"
  have w2: "w2 \<in> {1, 2, 3}" by (simp add: w2_def)
  have step: "enforce_loop R (it # items) cleaned seen =
      (if wd = [] then enforce_loop R items cleaned seen
       else if wd \<in> seen then enforce_loop R items cleaned seen
       else enforce_loop R items (cleaned @ [\<lparr>word = wd, weight = w2\<rparr>]) (insert wd seen))"
    unfolding it wd_def w1_def w2_def by (simp add: Let_def)
  show ?case
  proof (cases "wd = [] \<or> wd \<in> seen")
    case True
    then have "enforce_loop R items cleaned seen = Inr out"
      using Cons.prems(1) step by auto
    then show ?thesis using Cons.IH Cons.prems(2) by blast
  next
    case False
    then have r: "enforce_loop R items (cleaned @ [\<lparr>word = wd, weight = w2\<rparr>]) (insert wd seen) = Inr out"
      using Cons.prems(1) step by auto
    have "cleaned_inv R (cleaned @ [\<lparr>word = wd, weight = w2\<rparr>]) (insert wd seen)"
      using False Cons.prems(2) w2 by (intro cleaned_inv_snoc [where s = "py_str R
      (py_or (py_or (dict_get d (u ''word'') JNull) (dict_get d (u ''k'') JNull)) (JStr []))"])
        (auto simp: wd_def)
    then show ?thesis using Cons.IH r by blast
  qed
qed

lemma enforce_loop_total:
  "list_all is_dict items \<Longrightarrow> \<exists>out. enforce_loop R items cleaned seen = Inr out"
proof (induction items arbitrary: cleaned seen)
  case Nil
  show ?case by simp
next
  case (Cons it items)
  then obtain d where it: "it = JObj d" by (cases it) auto
  from Cons have "\<And>c s. \<exists>out. enforce_loop R items c s = Inr out" by simp
  then show ?case unfolding it by (simp add: Let_def)
qed

lemma enforce_loop_fails:
  "\<not> list_all is_dict items \<Longrightarrow> enforce_loop R items cleaned seen = Inl AttributeError"
proof (induction items arbitrary: cleaned seen)
  case Nil
  then show ?case by simp
next
  case (Cons it items)
  show ?case
  proof (cases it)
    case (JObj d)
    with Cons.prems have "\<not> list_all is_dict items" by simp
    then have "\<And>c s. enforce_loop R items c s = Inl AttributeError" using Cons.IH by blast
    then show ?thesis unfolding JObj by (simp add: Let_def)
  qed simp_all
qed

section \<open>The result of enforce\_keyword\_rules\<close>

lemma enforce_keyword_rules_Inr:
  "enforce_keyword_rules R items = Inr out \<longleftrightarrow>
     (\<exists>cleaned. enforce_loop R items [] {} = Inr cleaned
        \<and> out = take 30 (sort_key (\<lambda>x. - weight x) cleaned))"
  by (auto simp: enforce_keyword_rules_def split: sum.splits)

lemma enforce_keyword_rules_total:
  assumes "list_all is_dict items"
  shows "\<exists>out. enforce_keyword_rules R items = Inr out"
proof -
  from enforce_loop_total [OF assms] obtain cleaned
    where "enforce_loop R items [] {} = Inr cleaned" by blast
  then show ?thesis by (simp add: enforce_keyword_rules_def)
qed

lemma distinct_map_take_sort_key:
  assumes "distinct (map g xs)"
  shows "distinct (map g (take n (sort_key f xs)))"
proof -
  have "distinct (map g (sort_key f xs))"
    using assms by (simp add: distinct_map)
  then have "distinct (take n (map g (sort_key f xs)))"
    by (rule distinct_take)
  then show ?thesis by (simp add: take_map)
qed

lemma enforce_keyword_rules_words:
  assumes "enforce_keyword_rules R items = Inr out"
  shows "length out \<le> 30" "distinct (map word out)"
    "\<And>k. k \<in> set out \<Longrightarrow> word k \<noteq> [] \<and> (\<exists>s. word k = normalize_no_accents R s)
        \<and> weight k \<in> {1, 2, 3}"
proof -
  from assms obtain cleaned where c: "enforce_loop R items [] {} = Inr cleaned"
    and out: "out = take 30 (sort_key (\<lambda>x. - weight x) cleaned)"
    by (auto simp: enforce_keyword_rules_Inr)
  have inv: "cleaned_inv R cleaned (set (map word cleaned))"
    using enforce_loop_inv [OF c cleaned_inv_empty] .
  show "length out \<le> 30" by (simp add: out)
  show "distinct (map word out)"
    unfolding out using inv by (intro distinct_map_take_sort_key) (simp add: cleaned_inv_def)
  fix k assume "k \<in> set out"
  then have "k \<in> set cleaned"
    unfolding out using in_set_takeD by fastforce
  then show "word k \<noteq> [] \<and> (\<exists>s. word k = normalize_no_accents R s) \<and> weight k \<in> {1, 2, 3}"
    using inv by (auto simp: cleaned_inv_def list_all_iff)
qed

section \<open>The small runtime\<close>

lemma sample_runtime_simps:
  "py_lower sample_runtime = map sample_lower"
  "py_nfd sample_runtime = (\<lambda>s. concat (map sample_decomp s))"
  "py_is_Mn sample_runtime = (\<lambda>c. 768 \<le> c \<and> c \<le> 879)"
  "py_is_digit sample_runtime = (\<lambda>c. 48 \<le> c \<and> c \<le> 57)"
  "py_int_of_str sample_runtime = sample_int"
  by (simp_all add: sample_runtime_def)

lemma sample_lower_idem: "sample_lower (sample_lower c) = sample_lower c"
  by (simp add: sample_lower_def)

lemma sample_lower_out: "lowercase sample_runtime (py_lower sample_runtime t)"
  by (simp add: lowercase_def sample_runtime_simps list_all_iff sample_lower_idem)

lemma sample_decomp_lower:
  "sample_lower c = c \<Longrightarrow> d \<in> set (sample_decomp c) \<Longrightarrow> sample_lower d = d"
  by (auto simp: sample_decomp_def sample_lower_def split: if_splits)

lemma sample_nfd_keeps:
  "lowercase sample_runtime t \<Longrightarrow> lowercase sample_runtime (py_nfd sample_runtime t)"
  by (auto simp: lowercase_def sample_runtime_simps list_all_iff dest: sample_decomp_lower)

lemma sample_space: "py_lower sample_runtime [32] = [32]" "\<not> py_is_Mn sample_runtime 32"
  "py_nfd sample_runtime [32] = [32]"
  by (simp_all add: sample_runtime_simps sample_lower_def sample_decomp_def)

lemma sample_decomp_stable: "d \<in> set (sample_decomp c) \<Longrightarrow> sample_decomp d = [d]"
  by (auto simp: sample_decomp_def split: if_splits)

lemma sample_nfd_stable:
  "c \<in> set (py_nfd sample_runtime t) \<Longrightarrow> py_nfd sample_runtime [c] = [c]"
  by (auto simp: sample_runtime_simps dest: sample_decomp_stable)

text \<open>
  C6. For every input candidate list, canonicalisation ends with at most 30 entries,
  and every returned word is non-empty, lowercase, accent-free (no character of it
  carries a combining mark, not even inside a precomposed letter: the accented \<open>o\<close> of
  the Spanish word for illusion becomes \<open>o\<close>), whitespace-collapsed and unique in the
  returned list. On a list of dictionaries \<open>enforce_keyword_rules\<close> always returns.
  That a word stays lowercase and accent-free through the later steps rests on facts
  of the Unicode tables, which are parameters here: \<open>str.lower\<close> yields characters it
  leaves alone and NFD turns such characters into such characters; every character of
  an NFD result is its own decomposition; and the space is changed neither by
  \<open>str.lower\<close> nor by NFD and is not a combining mark.
\<close>

theorem enforce_keyword_rules_canonical:
  "(list_all is_dict items \<longrightarrow> (\<exists>out. enforce_keyword_rules R items = Inr out))
   \<and> (\<forall>out. enforce_keyword_rules R items = Inr out \<longrightarrow>
        length out \<le> 30 \<and> distinct (map word out)
        \<and> (\<forall>k \<in> set out.
              word k \<noteq> [] \<and> ws_collapsed (word k)
              \<and> ((\<forall>t. \<forall>c \<in> set (py_nfd R t). py_nfd R [c] = [c])
                  \<and> py_nfd R [32] = [32] \<and> \<not> py_is_Mn R 32 \<longrightarrow> accent_free R (word k))
              \<and> ((\<forall>t. lowercase R (py_lower R t))
                  \<and> (\<forall>t. lowercase R t \<longrightarrow> lowercase R (py_nfd R t))
                  \<and> py_lower R [32] = [32] \<longrightarrow> lowercase R (word k))))"
proof (intro conjI allI impI ballI)
  assume "list_all is_dict items"
  then show "\<exists>out. enforce_keyword_rules R items = Inr out"
    by (rule enforce_keyword_rules_total)
next
  fix out assume "enforce_keyword_rules R items = Inr out"
  then show "length out \<le> 30" by (rule enforce_keyword_rules_words(1))
next
  fix out assume "enforce_keyword_rules R items = Inr out"
  then show "distinct (map word out)" by (rule enforce_keyword_rules_words(2))
next
  fix out k assume "enforce_keyword_rules R items = Inr out" "k \<in> set out"
  then show "word k \<noteq> []" using enforce_keyword_rules_words(3) by blast
next
  fix out k assume "enforce_keyword_rules R items = Inr out" "k \<in> set out"
  then obtain s where "word k = normalize_no_accents R s"
    using enforce_keyword_rules_words(3) by blast
  then show "ws_collapsed (word k)" by (simp add: ws_collapsed_normalize)
next
  fix out k assume "enforce_keyword_rules R items = Inr out" "k \<in> set out"
    and mn: "(\<forall>t. \<forall>c \<in> set (py_nfd R t). py_nfd R [c] = [c])
                  \<and> py_nfd R [32] = [32] \<and> \<not> py_is_Mn R 32"
  then obtain s where "word k = normalize_no_accents R s"
    using enforce_keyword_rules_words(3) by blast
  then show "accent_free R (word k)" using mn by (simp add: accent_free_normalize)
next
  fix out k assume "enforce_keyword_rules R items = Inr out" "k \<in> set out"
    and tables: "(\<forall>t. lowercase R (py_lower R t))
                  \<and> (\<forall>t. lowercase R t \<longrightarrow> lowercase R (py_nfd R t))
                  \<and> py_lower R [32] = [32]"
  then obtain s where "word k = normalize_no_accents R s"
    using enforce_keyword_rules_words(3) by blast
  then show "lowercase R (word k)"
    using tables by (simp add: lowercase_normalize)
qed

lemma u_word_simps:
  "u ''word'' \<noteq> u ''k''" "u ''word'' \<noteq> u ''weight''" "u ''word'' \<noteq> u ''w''"
  "u ''k'' \<noteq> u ''word''" "u ''k'' \<noteq> u ''weight''" "u ''k'' \<noteq> u ''w''"
  "u ''weight'' \<noteq> u ''word''" "u ''weight'' \<noteq> u ''k''" "u ''weight'' \<noteq> u ''w''"
  "u ''w'' \<noteq> u ''word''" "u ''w'' \<noteq> u ''k''" "u ''w'' \<noteq> u ''weight''"
  by (simp_all add: u_eq_iff)

lemma sample_normalize_ilusion:
  "normalize_no_accents sample_runtime [32, 73, 108, 117, 115, 105, 243, 110, 32]
     = [105, 108, 117, 115, 105, 111, 110]"
  "normalize_no_accents sample_runtime [105, 108, 117, 115, 105, 111, 110]
     = [105, 108, 117, 115, 105, 111, 110]"
  "normalize_no_accents sample_runtime [] = []"
  by (simp_all add: normalize_no_accents_def py_strip_def sample_runtime_simps
      sample_lower_def sample_decomp_def py_isspace_def)

text \<open>
  Three candidates: the Spanish word for illusion, capitalised, accented and padded,
  with weight 7; the same word already clean, under the key \<open>k\<close>; and an empty word.
  One keyword comes out, free of its accent; the accented spelling itself is not
  accent-free.
\<close>

theorem enforce_keyword_rules_canonical_witness:
  "enforce_keyword_rules sample_runtime
     [JObj [(u ''word'', JStr [32, 73, 108, 117, 115, 105, 243, 110, 32]), (u ''weight'', JInt 7)],
      JObj [(u ''k'', JStr [105, 108, 117, 115, 105, 111, 110]), (u ''w'', JInt 2)],
      JObj [(u ''word'', JStr [])]]
     = Inr [\<lparr>word = [105, 108, 117, 115, 105, 111, 110], weight = 3\<rparr>]
   \<and> lowercase sample_runtime [105, 108, 117, 115, 105, 111, 110]
   \<and> accent_free sample_runtime [105, 108, 117, 115, 105, 111, 110]
   \<and> \<not> accent_free sample_runtime [105, 108, 117, 115, 105, 243, 110]
   \<and> ws_collapsed [105, 108, 117, 115, 105, 111, 110]"
proof -
  define items where "items =
     [JObj [(u ''word'', JStr [32, 73, 108, 117, 115, 105, 243, 110, 32]), (u ''weight'', JInt 7)],
      JObj [(u ''k'', JStr [105, 108, 117, 115, 105, 111, 110]), (u ''w'', JInt 2)],
      JObj [(u ''word'', JStr [])]]"
  define k where "k = \<lparr>word = [105, 108, 117, 115, 105, 111, 110::nat], weight = 3::int\<rparr>"
  have d: "list_all is_dict items" by (simp add: items_def)
  have l: "enforce_loop sample_runtime items [] {} = Inr [k]"
    unfolding items_def k_def
    by (simp add: dict_get_def u_word_simps py_or_def py_str_def sample_normalize_ilusion Let_def)
  have e: "enforce_keyword_rules sample_runtime items = Inr [k]"
    by (simp add: enforce_keyword_rules_def l)
  have t1: "\<forall>t. lowercase sample_runtime (py_lower sample_runtime t)"
    using sample_lower_out by blast
  have t2: "\<forall>t. lowercase sample_runtime t \<longrightarrow> lowercase sample_runtime (py_nfd sample_runtime t)"
    using sample_nfd_keeps by blast
  note c = enforce_keyword_rules_canonical [of items sample_runtime]
  from c e have b: "\<forall>k' \<in> set [k].
       word k' \<noteq> [] \<and> ws_collapsed (word k')
       \<and> ((\<forall>t. \<forall>c \<in> set (py_nfd sample_runtime t). py_nfd sample_runtime [c] = [c])
           \<and> py_nfd sample_runtime [32] = [32] \<and> \<not> py_is_Mn sample_runtime 32
             \<longrightarrow> accent_free sample_runtime (word k'))
       \<and> ((\<forall>t. lowercase sample_runtime (py_lower sample_runtime t))
           \<and> (\<forall>t. lowercase sample_runtime t \<longrightarrow> lowercase sample_runtime (py_nfd sample_runtime t))
           \<and> py_lower sample_runtime [32] = [32] \<longrightarrow> lowercase sample_runtime (word k'))"
    by blast
  have w: "word k = [105, 108, 117, 115, 105, 111, 110]" by (simp add: k_def)
  have t3: "\<forall>t. \<forall>c \<in> set (py_nfd sample_runtime t). py_nfd sample_runtime [c] = [c]"
    using sample_nfd_stable by blast
  have a: "\<not> accent_free sample_runtime [105, 108, 117, 115, 105, 243, 110]"
    by (simp add: accent_free_def sample_runtime_simps sample_decomp_def)
  from b t1 t2 t3 sample_space have
    "ws_collapsed (word k) \<and> accent_free sample_runtime (word k) \<and> lowercase sample_runtime (word k)"
    by simp
  then show ?thesis
    using e a unfolding w unfolding items_def k_def by simp
qed

section \<open>Sorting before the cut\<close>

lemma sorted_desc_sort_key_weight:
  "sorted_wrt (\<lambda>a b. weight a \<ge> weight b) (sort_key (\<lambda>x. - weight x) cleaned)"
proof -
  have "sorted (map (\<lambda>x. - weight x) (sort_key (\<lambda>x. - weight x) cleaned))"
    by (rule sorted_sort_key)
  then show ?thesis by (simp add: sorted_wrt_map)
qed

lemma stable_sort_key_weight:
  "filter (\<lambda>x. weight x = w) (sort_key (\<lambda>x. - weight x) cleaned)
     = filter (\<lambda>x. weight x = w) cleaned"
  using sort_key_stable [of "\<lambda>x. - weight x" "- w" cleaned] by simp

lemma sorted_wrt_take_drop:
  assumes "sorted_wrt P xs" "a \<in> set (take n xs)" "b \<in> set (drop n xs)"
  shows "P a b"
proof -
  have "sorted_wrt P (take n xs @ drop n xs)" using assms(1) by simp
  then show ?thesis using assms(2,3) unfolding sorted_wrt_append by blast
qed

section \<open>dedupe\_keep\_best\<close>

lemma dedupe_loop_order:
  "dom seen = set order \<Longrightarrow> dedupe_loop ks seen order = (seen', order')
   \<Longrightarrow> order' = order @ first_occ (set order) (map word ks) \<and> dom seen' = set order'"
proof (induction ks arbitrary: seen order)
  case Nil
  then show ?case by simp
next
  case (Cons k ks)
  show ?case
  proof (cases "seen (word k)")
    case None
    then have n: "word k \<notin> set order" using Cons.prems(1) by auto
    have d: "dom (seen(word k \<mapsto> weight k)) = set (order @ [word k])"
      using Cons.prems(1) by auto
    have "dedupe_loop ks (seen(word k \<mapsto> weight k)) (order @ [word k]) = (seen', order')"
      using Cons.prems(2) None by (simp add: Let_def)
    from Cons.IH [OF d this] show ?thesis using n by simp
  next
    case (Some b)
    then have n: "word k \<in> set order" using Cons.prems(1) by auto
    have d: "dom (seen(word k \<mapsto> max b (weight k))) = set order"
      using Cons.prems(1) n by auto
    have "dedupe_loop ks (seen(word k \<mapsto> max b (weight k))) order = (seen', order')"
      using Cons.prems(2) Some by (simp add: Let_def)
    from Cons.IH [OF d this] show ?thesis using n by simp
  qed
qed

lemma dedupe_out_total:
  "set ws \<subseteq> dom seen \<Longrightarrow> \<exists>out. dedupe_out seen ws = Inr out \<and> map word out = ws"
proof (induction ws)
  case Nil
  show ?case by simp
next
  case (Cons w ws)
  then obtain b where b: "seen w = Some b" by auto
  from Cons obtain out where "dedupe_out seen ws = Inr out" "map word out = ws" by auto
  then show ?case using b by simp
qed

lemma dedupe_keep_best_words:
  "\<exists>out. dedupe_keep_best ks = Inr out \<and> map word out = first_occ {} (map word ks)"
proof -
  obtain seen' order' where l: "dedupe_loop ks Map.empty [] = (seen', order')"
    by (cases "dedupe_loop ks Map.empty []") auto
  have "dom (Map.empty :: ustr \<rightharpoonup> int) = set []" by simp
  from dedupe_loop_order [OF this l]
  have o: "order' = first_occ {} (map word ks)" and d: "dom seen' = set order'" by simp_all
  from dedupe_out_total [of order' seen'] d obtain out
    where "dedupe_out seen' order' = Inr out" "map word out = order'" by auto
  then show ?thesis using l o by (simp add: dedupe_keep_best_def)
qed

section \<open>Sorting and the cut to 30\<close>

lemma upt31: "[0..<31] = [0,1,2,3,4,5,6,7,8,9,10,11,12,13,14,15,16,17,18,19,20,21,22,23,24,25,26,27,28,29,30]"
  by (simp add: upt_rec)

lemma upt30: "[0..<30] = [0,1,2,3,4,5,6,7,8,9,10,11,12,13,14,15,16,17,18,19,20,21,22,23,24,25,26,27,28,29]"
  by (simp add: upt_rec)

text \<open>
  In \<open>gen_keywords.py\<close> the list is cut without being sorted: of 31 distinct words,
  the first thirty with weight 1 and the last with weight 3, the cut keeps the thirty
  of weight 1 and drops the one of weight 3.
\<close>

theorem dedupe_and_cap_counterexample:
  "dedupe_and_cap (map (\<lambda>i. \<lparr>word = [i], weight = (if i = 30 then 3 else 1)\<rparr>) [0..<31])
     = Inr (map (\<lambda>i. \<lparr>word = [i], weight = 1\<rparr>) [0..<30])"
  unfolding upt31 upt30
  by (simp add: dedupe_and_cap_def dedupe_keep_best_def Let_def)

text \<open>
  C5, amended. In \<open>enforce_keyword_rules\<close> (\<open>daily_build.py\<close>) the deduplicated list is
  sorted by weight descending with a stable sort (entries of equal weight keep their
  order) and only then cut to its first 30 entries, so no entry that is cut off
  outweighs one that is kept. In \<open>gen_keywords.py\<close> the deduplicated list is in order
  of first appearance and is cut to its first 30 entries as it stands.
\<close>

theorem enforce_keyword_rules_sort_then_cut:
  "(\<forall>out. enforce_keyword_rules R items = Inr out \<longrightarrow>
      (\<exists>cleaned ranked.
          enforce_loop R items [] {} = Inr cleaned \<and> distinct (map word cleaned)
        \<and> ranked = sort_key (\<lambda>x. - weight x) cleaned
        \<and> set ranked = set cleaned \<and> length ranked = length cleaned
        \<and> sorted_wrt (\<lambda>a b. weight a \<ge> weight b) ranked
        \<and> (\<forall>w. filter (\<lambda>x. weight x = w) ranked = filter (\<lambda>x. weight x = w) cleaned)
        \<and> out = take 30 ranked
        \<and> (\<forall>kept \<in> set (take 30 ranked). \<forall>cut \<in> set (drop 30 ranked).
              weight cut \<le> weight kept)))
   \<and> (\<exists>out. dedupe_keep_best ks = Inr out
          \<and> map word out = first_occ {} (map word ks)
          \<and> dedupe_and_cap ks = Inr (take 30 out))"
proof (intro conjI allI impI)
  fix out assume "enforce_keyword_rules R items = Inr out"
  then obtain cleaned where c: "enforce_loop R items [] {} = Inr cleaned"
    and out: "out = take 30 (sort_key (\<lambda>x. - weight x) cleaned)"
    by (auto simp: enforce_keyword_rules_Inr)
  have "cleaned_inv R cleaned (set (map word cleaned))"
    using enforce_loop_inv [OF c cleaned_inv_empty] .
  then have d: "distinct (map word cleaned)" by (simp add: cleaned_inv_def)
  let ?ranked = "sort_key (\<lambda>x. - weight x) cleaned"
  have s: "sorted_wrt (\<lambda>a b. weight a \<ge> weight b) ?ranked"
    by (rule sorted_desc_sort_key_weight)
  have k: "\<forall>kept \<in> set (take 30 ?ranked). \<forall>cut \<in> set (drop 30 ?ranked).
              weight cut \<le> weight kept"
    using sorted_wrt_take_drop [OF s] by blast
  show "\<exists>cleaned ranked.
          enforce_loop R items [] {} = Inr cleaned \<and> distinct (map word cleaned)
        \<and> ranked = sort_key (\<lambda>x. - weight x) cleaned
        \<and> set ranked = set cleaned \<and> length ranked = length cleaned
        \<and> sorted_wrt (\<lambda>a b. weight a \<ge> weight b) ranked
        \<and> (\<forall>w. filter (\<lambda>x. weight x = w) ranked = filter (\<lambda>x. weight x = w) cleaned)
        \<and> out = take 30 ranked
        \<and> (\<forall>kept \<in> set (take 30 ranked). \<forall>cut \<in> set (drop 30 ranked).
              weight cut \<le> weight kept)"
    using c d s k out stable_sort_key_weight [of _ cleaned]
    by (intro exI [of _ cleaned] exI [of _ ?ranked]) simp
next
  from dedupe_keep_best_words [of ks] obtain out
    where "dedupe_keep_best ks = Inr out" "map word out = first_occ {} (map word ks)" by blast
  then show "\<exists>out. dedupe_keep_best ks = Inr out
          \<and> map word out = first_occ {} (map word ks)
          \<and> dedupe_and_cap ks = Inr (take 30 out)"
    by (simp add: dedupe_and_cap_def)
qed

lemma sample_normalize_abc:
  "normalize_no_accents sample_runtime [97] = [97]"
  "normalize_no_accents sample_runtime [98] = [98]"
  "normalize_no_accents sample_runtime [99] = [99]"
  by (simp_all add: normalize_no_accents_def py_strip_def sample_runtime_simps
      sample_lower_def sample_decomp_def py_isspace_def)

text \<open>
  Three candidates with weights 1, 3 and 1: the one of weight 3 comes first and the
  other two keep their order. The same three keywords through \<open>dedupe_and_cap\<close> stay
  as they came.
\<close>

theorem enforce_keyword_rules_sort_then_cut_witness:
  "enforce_keyword_rules sample_runtime
     [JObj [(u ''word'', JStr [97]), (u ''weight'', JInt 1)],
      JObj [(u ''word'', JStr [98]), (u ''weight'', JInt 3)],
      JObj [(u ''word'', JStr [99]), (u ''weight'', JInt 1)]]
     = Inr [\<lparr>word = [98], weight = 3\<rparr>, \<lparr>word = [97], weight = 1\<rparr>,
            \<lparr>word = [99], weight = 1\<rparr>]
   \<and> sorted_wrt (\<lambda>a b. weight a \<ge> weight b)
        [\<lparr>word = [98], weight = 3\<rparr>, \<lparr>word = [97], weight = 1\<rparr>, \<lparr>word = [99], weight = 1\<rparr>]
   \<and> dedupe_and_cap
        [\<lparr>word = [97], weight = 1\<rparr>, \<lparr>word = [98], weight = 3\<rparr>, \<lparr>word = [99], weight = 1\<rparr>]
      = Inr [\<lparr>word = [97], weight = 1\<rparr>, \<lparr>word = [98], weight = 3\<rparr>,
             \<lparr>word = [99], weight = 1\<rparr>]"
proof -
  define items where "items =
     [JObj [(u ''word'', JStr [97]), (u ''weight'', JInt 1)],
      JObj [(u ''word'', JStr [98]), (u ''weight'', JInt 3)],
      JObj [(u ''word'', JStr [99]), (u ''weight'', JInt 1)]]"
  define ks where "ks =
     [\<lparr>word = [97::nat], weight = 1::int\<rparr>, \<lparr>word = [98], weight = 3\<rparr>,
      \<lparr>word = [99], weight = 1\<rparr>]"
  define res where "res =
     [\<lparr>word = [98::nat], weight = 3::int\<rparr>, \<lparr>word = [97], weight = 1\<rparr>,
      \<lparr>word = [99], weight = 1\<rparr>]"
  have l: "enforce_loop sample_runtime items [] {} = Inr ks"
    unfolding items_def ks_def
    by (simp add: dict_get_def u_word_simps py_or_def py_str_def sample_normalize_abc Let_def)
  have e: "enforce_keyword_rules sample_runtime items = Inr res"
    unfolding enforce_keyword_rules_def l unfolding ks_def res_def by simp
  note t = enforce_keyword_rules_sort_then_cut [of sample_runtime items ks]
  from t e obtain ranked where r: "res = take 30 ranked"
    and s: "sorted_wrt (\<lambda>a b. weight a \<ge> weight b) ranked"
    by blast
  have s': "sorted_wrt (\<lambda>a b. weight a \<ge> weight b) res"
    unfolding r using s by (rule sorted_wrt_take)
  from t obtain out where o: "dedupe_keep_best ks = Inr out"
    and c: "dedupe_and_cap ks = Inr (take 30 out)" by blast
  have "dedupe_keep_best ks = Inr ks"
    unfolding ks_def by (simp add: dedupe_keep_best_def Let_def)
  with o c have c': "dedupe_and_cap ks = Inr ks"
    by (simp add: ks_def)
  show ?thesis
    using e s' c' unfolding items_def ks_def res_def by simp
qed

section \<open>A second pass over a tiered list\<close>




lemma tiered_nth:
  "tiered ks \<Longrightarrow> i < length ks \<Longrightarrow> weight (ks ! i) = spec_tier (length ks) i"
proof -
  assume t: "tiered ks" and i: "i < length ks"
  have "weight (ks ! i) = map weight ks ! i" using i by simp
  also have "\<dots> = map (spec_tier (length ks)) [0..<length ks] ! i"
    using t by (simp add: tiered_def)
  also have "\<dots> = spec_tier (length ks) i" using i by simp
  finally show ?thesis .
qed



lemma tiered_weights: "tiered ks \<Longrightarrow> k \<in> set ks \<Longrightarrow> weight k \<in> {1, 2, 3}"
proof -
  assume t: "tiered ks" and "k \<in> set ks"
  then obtain i where i: "i < length ks" "ks ! i = k" by (auto simp: in_set_conv_nth)
  from tiered_nth [OF t i(1)] i(2) spec_tier_range [of "length ks" i]
  show ?thesis by simp
qed









text \<open>
  Under the facts of the Unicode tables that make the result of normalisation lowercase
  and accent-free, a tiered list in normal form is canonical: normal form asks more.
\<close>

lemma normal_form_canonical:
  assumes "\<And>t. lowercase R (py_lower R t)"
    and "\<And>t. lowercase R t \<Longrightarrow> lowercase R (py_nfd R t)"
    and "py_lower R [32] = [32]"
    and "\<And>t c. c \<in> set (py_nfd R t) \<Longrightarrow> py_nfd R [c] = [c]"
    and "py_nfd R [32] = [32]" "\<not> py_is_Mn R 32"
    and nf: "normal_form R ks" and t: "tiered ks"
  shows "canonical R ks"
proof -
  have "lowercase R (word k) \<and> accent_free R (word k) \<and> ws_collapsed (word k)"
    if "k \<in> set ks" for k
  proof -
    from that nf have f: "normalize_no_accents R (word k) = word k"
      by (simp add: normal_form_def list_all_iff)
    have "lowercase R (normalize_no_accents R (word k))"
      using assms(1-3) by (rule lowercase_normalize)
    moreover have "accent_free R (normalize_no_accents R (word k))"
      using assms(4-6) by (rule accent_free_normalize)
    moreover have "ws_collapsed (normalize_no_accents R (word k))"
      by (rule ws_collapsed_normalize)
    ultimately show ?thesis unfolding f by simp
  qed
  then show ?thesis
    using nf tiered_weights [OF t] by (auto simp: canonical_def normal_form_def list_all_iff)
qed

section \<open>Idempotence of the pipeline\<close>








section \<open>build\_entry\<close>

lemma dropWhile_hd: "dropWhile P xs = [] \<or> \<not> P (hd (dropWhile P xs))"
  by (induction xs) auto

lemma py_strip_last: "py_strip s \<noteq> [] \<Longrightarrow> \<not> py_isspace (last (py_strip s))"
proof -
  assume a: "py_strip s \<noteq> []"
  let ?d = "dropWhile py_isspace (rev (dropWhile py_isspace s))"
  have s: "py_strip s = rev ?d" by (simp add: py_strip_def)
  with a have ne: "?d \<noteq> []" by simp
  then have "\<not> py_isspace (hd ?d)" using dropWhile_hd [of py_isspace] by blast
  moreover have "last (py_strip s) = hd ?d" unfolding s using ne by (simp add: last_rev)
  ultimately show ?thesis by simp
qed

lemma py_isspace_newline: "py_isspace 10"
  by (simp add: py_isspace_def)

lemma re_match_date_strip:
  "re_match_date R (py_strip s) \<longleftrightarrow> date_shape R (py_strip s)"
  using py_strip_last [of s] py_isspace_newline by (auto simp: re_match_date_def)

lemma date_shape_Nil: "\<not> date_shape R []"
  by (simp add: date_shape_def)

lemma py_strip_Nil: "py_strip [] = []"
  by (simp add: py_strip_def)

lemma build_entry_fails:
  "build_entry R m f kws = Inl err \<longleftrightarrow>
     err = ValidationError \<and> \<not> date_shape R (py_strip (meta_get m (u ''date'')))"
  by (auto simp: build_entry_def Let_def re_match_date_strip)

lemma build_entry_absent:
  "m (u ''date'') = None \<Longrightarrow> build_entry R m f kws = Inl ValidationError"
  by (simp add: build_entry_fails meta_get_def py_strip_Nil date_shape_Nil)

lemma build_entry_Inr:
  "build_entry R m f kws = Inr e \<longleftrightarrow>
     date_shape R (py_strip (meta_get m (u ''date'')))
     \<and> e = \<lparr>date = py_strip (meta_get m (u ''date'')),
            month = take 7 (py_strip (meta_get m (u ''date''))),
            file_rel = f,
            my_poem_title = py_strip (meta_get m (u ''my_poem_title'')),
            my_poem_snippet = py_strip (meta_get m (u ''my_poem_snippet'')),
            analysis =
              \<lparr>poet = py_strip (meta_get m (u ''poet'')),
               poem_title = py_strip (meta_get m (u ''poem_title'')),
               poem_snippet = py_strip (meta_get m (u ''poem_snippet'')),
               book_title = py_strip (meta_get m (u ''book_title''))\<rparr>,
            keyword_list = kws\<rparr>"
  by (auto simp: build_entry_def Let_def re_match_date_strip)

lemma meta_get_absent: "m k = None \<Longrightarrow> py_strip (meta_get m k) = []"
  by (simp add: meta_get_def py_strip_Nil)

lemma u_date: "u ''2025-03-10'' = [50, 48, 50, 53, 45, 48, 51, 45, 49, 48]"
  by (simp add: u_def)

lemma strip_padded_date:
  "py_strip (32 # u ''2025-03-10'') = u ''2025-03-10''"
  unfolding u_date by (simp add: py_strip_def py_isspace_def)

lemma sample_date_shape: "date_shape sample_runtime (u ''2025-03-10'')"
  unfolding u_date by (simp add: date_shape_def sample_runtime_simps)

text \<open>
  A date with a space before it does not match the pattern, and the entry is built all
  the same, from the stripped date.
\<close>

theorem build_entry_counterexample:
  "\<not> re_match_date sample_runtime (32 # u ''2025-03-10'')
   \<and> build_entry sample_runtime [u ''date'' \<mapsto> 32 # u ''2025-03-10''] (u ''textos/a.txt'') []
       = Inr \<lparr>date = u ''2025-03-10'', month = u ''2025-03'', file_rel = u ''textos/a.txt'',
              my_poem_title = [], my_poem_snippet = [],
              analysis = \<lparr>poet = [], poem_title = [], poem_snippet = [], book_title = []\<rparr>,
              keyword_list = []\<rparr>"
proof
  show "\<not> re_match_date sample_runtime (32 # u ''2025-03-10'')"
    unfolding u_date by (simp add: re_match_date_def date_shape_def)
next
  have m: "meta_get [u ''date'' \<mapsto> 32 # u ''2025-03-10''] (u ''date'') = 32 # u ''2025-03-10''"
    by (simp add: meta_get_def)
  have o: "meta_get [u ''date'' \<mapsto> 32 # u ''2025-03-10''] (u k) = []" if "k \<noteq> ''date''" for k
    using that by (simp add: meta_get_def u_eq_iff)
  have t: "take 7 (u ''2025-03-10'') = u ''2025-03''" by (simp add: u_def)
  show "build_entry sample_runtime [u ''date'' \<mapsto> 32 # u ''2025-03-10''] (u ''textos/a.txt'') []
       = Inr \<lparr>date = u ''2025-03-10'', month = u ''2025-03'', file_rel = u ''textos/a.txt'',
              my_poem_title = [], my_poem_snippet = [],
              analysis = \<lparr>poet = [], poem_title = [], poem_snippet = [], book_title = []\<rparr>,
              keyword_list = []\<rparr>"
    by (simp add: build_entry_Inr m o strip_padded_date sample_date_shape t py_strip_Nil)
qed

lemma u_entry_keys:
  "u ''my_poem_title'' \<noteq> u ''date''" "u ''my_poem_title'' \<noteq> u ''month''"
  "u ''my_poem_title'' \<noteq> u ''file''"
  "u ''my_poem_snippet'' \<noteq> u ''date''" "u ''my_poem_snippet'' \<noteq> u ''month''"
  "u ''my_poem_snippet'' \<noteq> u ''file''" "u ''my_poem_snippet'' \<noteq> u ''my_poem_title''"
  "u ''analysis'' \<noteq> u ''date''" "u ''analysis'' \<noteq> u ''month''"
  "u ''analysis'' \<noteq> u ''file''" "u ''analysis'' \<noteq> u ''my_poem_title''"
  "u ''analysis'' \<noteq> u ''my_poem_snippet''"
  by (simp_all add: u_eq_iff)

lemma entry_json_fields:
  "dict_get (case entry_json e of JObj d \<Rightarrow> d | _ \<Rightarrow> []) (u ''my_poem_title'') JNull
     = JStr (my_poem_title e)"
  "dict_get (case entry_json e of JObj d \<Rightarrow> d | _ \<Rightarrow> []) (u ''my_poem_snippet'') JNull
     = JStr (my_poem_snippet e)"
  "dict_get (case entry_json e of JObj d \<Rightarrow> d | _ \<Rightarrow> []) (u ''analysis'') JNull
     = JObj [(u ''poet'', JStr (poet (analysis e))),
             (u ''poem_title'', JStr (poem_title (analysis e))),
             (u ''poem_snippet'', JStr (poem_snippet (analysis e))),
             (u ''book_title'', JStr (book_title (analysis e)))]"
  by (simp_all add: entry_json_def dict_get_def u_entry_keys)

text \<open>
  C7, amended. Building an archive entry fails, with \<open>ValidationError\<close> and with no
  other error, exactly when the metadata \<open>date\<close>, once the whitespace around it is
  stripped, does not consist of four digits, a hyphen, two digits, a hyphen and two
  digits; an absent \<open>date\<close> is such a case. On success the entry's \<open>date\<close> is the
  stripped value and its \<open>month\<close> the first 7 characters of that; every string field
  absent from the metadata is the empty string in the entry, and in the stored
  dictionary each of these fields is present as a string.
\<close>

theorem build_entry_validation:
  "(build_entry R m f kws = Inl ValidationError
      \<longleftrightarrow> \<not> date_shape R (py_strip (meta_get m (u ''date''))))
   \<and> (\<forall>err. build_entry R m f kws = Inl err \<longrightarrow> err = ValidationError)
   \<and> (m (u ''date'') = None \<longrightarrow> build_entry R m f kws = Inl ValidationError)
   \<and> (\<forall>e. build_entry R m f kws = Inr e \<longrightarrow>
          date e = py_strip (meta_get m (u ''date'')) \<and> month e = take 7 (date e)
        \<and> file_rel e = f \<and> keyword_list e = kws
        \<and> (m (u ''my_poem_title'') = None \<longrightarrow> my_poem_title e = [])
        \<and> (m (u ''my_poem_snippet'') = None \<longrightarrow> my_poem_snippet e = [])
        \<and> (m (u ''poet'') = None \<longrightarrow> poet (analysis e) = [])
        \<and> (m (u ''poem_title'') = None \<longrightarrow> poem_title (analysis e) = [])
        \<and> (m (u ''poem_snippet'') = None \<longrightarrow> poem_snippet (analysis e) = [])
        \<and> (m (u ''book_title'') = None \<longrightarrow> book_title (analysis e) = [])
        \<and> (\<exists>d. entry_json e = JObj d
              \<and> dict_get d (u ''my_poem_title'') JNull = JStr (my_poem_title e)
              \<and> dict_get d (u ''my_poem_snippet'') JNull = JStr (my_poem_snippet e)
              \<and> dict_get d (u ''analysis'') JNull
                   = JObj [(u ''poet'', JStr (poet (analysis e))),
                           (u ''poem_title'', JStr (poem_title (analysis e))),
                           (u ''poem_snippet'', JStr (poem_snippet (analysis e))),
                           (u ''book_title'', JStr (book_title (analysis e)))]))"
proof (intro conjI allI impI)
  show "build_entry R m f kws = Inl ValidationError
      \<longleftrightarrow> \<not> date_shape R (py_strip (meta_get m (u ''date'')))"
    by (simp add: build_entry_fails)
next
  fix err assume "build_entry R m f kws = Inl err"
  then show "err = ValidationError" by (simp add: build_entry_fails)
next
  assume "m (u ''date'') = None"
  then show "build_entry R m f kws = Inl ValidationError" by (rule build_entry_absent)
next
  fix e assume e: "build_entry R m f kws = Inr e"
  then show "date e = py_strip (meta_get m (u ''date''))" by (simp add: build_entry_Inr)
  from e show "month e = take 7 (date e)" by (simp add: build_entry_Inr)
  from e show "file_rel e = f" by (simp add: build_entry_Inr)
  from e show "keyword_list e = kws" by (simp add: build_entry_Inr)
  { assume "m (u ''my_poem_title'') = None"
    with e show "my_poem_title e = []" by (simp add: build_entry_Inr meta_get_absent) }
  { assume "m (u ''my_poem_snippet'') = None"
    with e show "my_poem_snippet e = []" by (simp add: build_entry_Inr meta_get_absent) }
  { assume "m (u ''poet'') = None"
    with e show "poet (analysis e) = []" by (simp add: build_entry_Inr meta_get_absent) }
  { assume "m (u ''poem_title'') = None"
    with e show "poem_title (analysis e) = []" by (simp add: build_entry_Inr meta_get_absent) }
  { assume "m (u ''poem_snippet'') = None"
    with e show "poem_snippet (analysis e) = []" by (simp add: build_entry_Inr meta_get_absent) }
  { assume "m (u ''book_title'') = None"
    with e show "book_title (analysis e) = []" by (simp add: build_entry_Inr meta_get_absent) }
  obtain d where d: "entry_json e = JObj d" by (simp add: entry_json_def)
  show "\<exists>d. entry_json e = JObj d
              \<and> dict_get d (u ''my_poem_title'') JNull = JStr (my_poem_title e)
              \<and> dict_get d (u ''my_poem_snippet'') JNull = JStr (my_poem_snippet e)
              \<and> dict_get d (u ''analysis'') JNull
                   = JObj [(u ''poet'', JStr (poet (analysis e))),
                           (u ''poem_title'', JStr (poem_title (analysis e))),
                           (u ''poem_snippet'', JStr (poem_snippet (analysis e))),
                           (u ''book_title'', JStr (book_title (analysis e)))]"
    using entry_json_fields [of e] d by simp
qed

text \<open>
  With the date 2025-03-10 and nothing else in the metadata the entry is built, its
  month is 2025-03 and its title is empty; with no date the build fails.
\<close>

theorem build_entry_validation_witness:
  "(\<exists>e. build_entry sample_runtime [u ''date'' \<mapsto> u ''2025-03-10''] (u ''textos/a.txt'') []
          = Inr e \<and> date e = u ''2025-03-10'' \<and> month e = u ''2025-03''
          \<and> my_poem_title e = [])
   \<and> build_entry sample_runtime Map.empty (u ''textos/a.txt'') [] = Inl ValidationError"
proof -
  let ?m = "[u ''date'' \<mapsto> u ''2025-03-10'']"
  have s: "py_strip (u ''2025-03-10'') = u ''2025-03-10''"
    unfolding u_date by (simp add: py_strip_def py_isspace_def)
  have g: "meta_get ?m (u ''date'') = u ''2025-03-10''" by (simp add: meta_get_def)
  have n: "?m (u ''my_poem_title'') = None" by (simp add: u_eq_iff)
  have t: "take 7 (u ''2025-03-10'') = u ''2025-03''" by (simp add: u_def)
  note v = build_entry_validation [of sample_runtime ?m "u ''textos/a.txt''" "[]"]
  from v have "build_entry sample_runtime ?m (u ''textos/a.txt'') [] \<noteq> Inl ValidationError"
    by (simp add: g s sample_date_shape)
  moreover from v have "\<forall>err. build_entry sample_runtime ?m (u ''textos/a.txt'') [] = Inl err
      \<longrightarrow> err = ValidationError" by blast
  ultimately obtain e where e: "build_entry sample_runtime ?m (u ''textos/a.txt'') [] = Inr e"
    by (cases "build_entry sample_runtime ?m (u ''textos/a.txt'') []") auto
  from v e have "date e = py_strip (meta_get ?m (u ''date''))" "month e = take 7 (date e)"
    "?m (u ''my_poem_title'') = None \<longrightarrow> my_poem_title e = []"
    by blast+
  then have "date e = u ''2025-03-10''" "month e = u ''2025-03''" "my_poem_title e = []"
    using n by (simp_all add: g s t)
  with e have 1: "\<exists>e. build_entry sample_runtime ?m (u ''textos/a.txt'') [] = Inr e
      \<and> date e = u ''2025-03-10'' \<and> month e = u ''2025-03'' \<and> my_poem_title e = []"
    by blast
  have "Map.empty (u ''date'') = (None :: ustr option)" by simp
  with build_entry_validation [of sample_runtime Map.empty "u ''textos/a.txt''" "[]"]
  have 2: "build_entry sample_runtime Map.empty (u ''textos/a.txt'') [] = Inl ValidationError"
    by blast
  from 1 2 show ?thesis by blast
qed

section \<open>load\_entries\<close>

lemma sample_json_loads: "json_loads sample_runtime = sample_loads"
  by (simp add: sample_runtime_def)

lemma u_brackets: "u ''[]'' = [91, 93]" "u ''{}'' = [123, 125]"
  by (simp_all add: u_def)

lemma sample_loads_simps:
  "sample_loads (u ''[]'') = Some (JArr [])"
  "sample_loads (u ''{}'') = Some (JObj [])"
  by (simp_all add: sample_loads_def u_brackets)

text \<open>
  An archive file that exists and is empty: decoding it raises, no empty list comes
  back.
\<close>

theorem load_entries_counterexample:
  "load_entries sample_runtime (Some []) = Inl JSONDecodeError"
  by (simp add: load_entries_def py_json_loads_def)

text \<open>
  C3, amended. Loading the archive from storage that does not exist yields the empty
  sequence and raises nothing. Storage that exists is decoded: when its root is a
  sequence that sequence is returned (the empty one for an empty array), when its root
  is anything else the load fails with \<open>MalformedArchiveError\<close>, and when it does not
  decode, as is the case for an empty file, the load fails with the decoder's error.
\<close>

theorem load_entries_cases:
  "load_entries R None = Inr []
   \<and> load_entries R (Some []) = Inl JSONDecodeError
   \<and> (\<forall>entries. py_json_loads R text = Some (JArr entries)
         \<longrightarrow> load_entries R (Some text) = Inr entries)
   \<and> (\<forall>data. py_json_loads R text = Some data \<and> (\<forall>entries. data \<noteq> JArr entries)
         \<longrightarrow> load_entries R (Some text) = Inl MalformedArchiveError)
   \<and> (py_json_loads R text = None \<longrightarrow> load_entries R (Some text) = Inl JSONDecodeError)"
proof (intro conjI allI impI)
  show "load_entries R None = Inr []" by (simp add: load_entries_def)
  show "load_entries R (Some []) = Inl JSONDecodeError"
    by (simp add: load_entries_def py_json_loads_def)
next
  fix entries assume "py_json_loads R text = Some (JArr entries)"
  then show "load_entries R (Some text) = Inr entries" by (simp add: load_entries_def)
next
  fix data assume "py_json_loads R text = Some data \<and> (\<forall>entries. data \<noteq> JArr entries)"
  then show "load_entries R (Some text) = Inl MalformedArchiveError"
    by (cases data) (simp_all add: load_entries_def)
next
  assume "py_json_loads R text = None"
  then show "load_entries R (Some text) = Inl JSONDecodeError" by (simp add: load_entries_def)
qed

text \<open>
  With the small runtime: an empty array loads as the empty sequence, an object at the
  root is refused.
\<close>

theorem load_entries_cases_witness:
  "load_entries sample_runtime (Some (u ''[]'')) = Inr []
   \<and> load_entries sample_runtime (Some (u ''{}'')) = Inl MalformedArchiveError
   \<and> load_entries sample_runtime None = Inr []"
proof -
  have a: "py_json_loads sample_runtime (u ''[]'') = Some (JArr [])"
    by (simp add: py_json_loads_def sample_json_loads sample_loads_simps) (simp add: u_brackets)
  have o: "py_json_loads sample_runtime (u ''{}'') = Some (JObj [])"
    by (simp add: py_json_loads_def sample_json_loads sample_loads_simps) (simp add: u_brackets)
  from load_entries_cases [of sample_runtime "u ''[]''"] a
  have 1: "load_entries sample_runtime (Some (u ''[]'')) = Inr []" by blast
  have "\<forall>entries. JObj [] \<noteq> JArr entries" by simp
  with load_entries_cases [of sample_runtime "u ''{}''"] o
  have 2: "load_entries sample_runtime (Some (u ''{}'')) = Inl MalformedArchiveError" by blast
  from load_entries_cases [of sample_runtime "u ''[]''"]
  have 3: "load_entries sample_runtime None = Inr []" by blast
  from 1 2 3 show ?thesis by blast
qed

section \<open>The end of main: merging an entry\<close>

lemma any_same_date_dicts:
  "list_all is_dict entries \<Longrightarrow> any_same_date d entries = Inr (list_ex (has_date d) entries)"
proof (induction entries)
  case Nil
  show ?case by simp
next
  case (Cons e es)
  then obtain kvs where "e = JObj kvs" by (cases e) auto
  with Cons show ?case by (simp add: has_date_def)
qed

lemma any_same_date_True:
  "any_same_date d entries = Inr True \<Longrightarrow> list_ex (has_date d) entries"
proof (induction entries)
  case Nil
  then show ?case by simp
next
  case (Cons e es)
  then show ?case by (cases e) (auto simp: has_date_def split: if_splits)
qed

lemma any_same_date_False:
  "any_same_date d entries = Inr False \<Longrightarrow> list_all is_dict entries"
proof (induction entries)
  case Nil
  then show ?case by simp
next
  case (Cons e es)
  then show ?case by (cases e) (auto split: if_splits)
qed

lemma merge_duplicate:
  assumes "load_entries R path = Inr entries" "list_all is_dict entries"
    "list_ex (has_date (date entry)) entries"
  shows "merge R path entry = (Inl DuplicateDateError, path)"
  using assms by (simp add: merge_def any_same_date_dicts)

lemma u_date_key: "u ''date'' \<noteq> u ''month''"
  by (simp add: u_eq_iff)


lemma entry_json_date_key: "date_key (entry_json e) = JStr (date e)"
  by (simp add: entry_json_def dict_get_def)





text \<open>
  Once the archive is loaded, holds no entry of the new date and is sorted, the outcome
  is that of \<open>write_text\<close>.
\<close>

lemma merge_write:
  assumes "load_entries R path = Inr entries"
    "any_same_date (date entry) entries = Inr False"
    "sort_entries_desc (entries @ [entry_json entry]) = Inr out"
  shows "merge R path entry =
           (if list_ex is_surrogate (json_dumps R (JArr out) @ [10])
            then (Inl UnicodeEncodeError, Some [])
            else (Inr out, Some (json_dumps R (JArr out) @ [10])))"
  using assms by (simp add: merge_def write_text_def)


lemma any_same_date_error:
  "any_same_date d entries = Inl e \<Longrightarrow> e = AttributeError"
proof (induction entries)
  case Nil
  then show ?case by simp
next
  case (Cons x xs)
  then show ?case by (cases x) (auto split: if_splits)
qed

lemma sort_with_entry_error:
  "sort_entries_desc (entries @ [entry_json entry]) = Inl e
   \<Longrightarrow> e = AttributeError \<or> e = TypeError"
  by (auto simp: sort_entries_desc_def entry_json_date_key split: if_splits)

lemma load_entries_error:
  "load_entries R path = Inl e \<Longrightarrow> e = JSONDecodeError \<or> e = MalformedArchiveError"
  by (auto simp: load_entries_def split: option.splits json.splits)

text \<open>
  The errors the end of \<open>main\<close> can end with; \<open>Unmodelled\<close> is not among them. Only
  \<open>write_text\<close> raises \<open>UnicodeEncodeError\<close>, and every other error comes before the file
  is opened.
\<close>

lemma merge_errors:
  assumes "fst (merge R path entry) = Inl e"
  shows "e \<in> {JSONDecodeError, MalformedArchiveError, AttributeError, DuplicateDateError,
              TypeError, UnicodeEncodeError}
         \<and> (e \<noteq> UnicodeEncodeError \<longrightarrow> snd (merge R path entry) = path)"
proof (cases "load_entries R path")
  case (Inl a)
  with assms load_entries_error [OF Inl] show ?thesis by (auto simp: merge_def)
next
  case (Inr entries)
  show ?thesis
  proof (cases "any_same_date (date entry) entries")
    case (Inl a)
    with Inr assms any_same_date_error [OF Inl] show ?thesis by (auto simp: merge_def)
  next
    case r: (Inr b)
    show ?thesis
    proof (cases b)
      case True
      with Inr r assms show ?thesis by (auto simp: merge_def)
    next
      case False
      show ?thesis
      proof (cases "sort_entries_desc (entries @ [entry_json entry])")
        case (Inl a)
        with Inr r False assms sort_with_entry_error [OF Inl] show ?thesis
          by (auto simp: merge_def)
      next
        case s: (Inr out)
        from r False have n: "any_same_date (date entry) entries = Inr False" by simp
        from assms show ?thesis
          unfolding merge_write [OF Inr n s]
          by (auto split: if_splits)
      qed
    qed
  qed
qed

lemma merge_failure_keeps_store:
  "fst (merge R path entry) = Inl e \<Longrightarrow> e \<noteq> UnicodeEncodeError
   \<Longrightarrow> snd (merge R path entry) = path"
  using merge_errors by blast

text \<open>
  C2. When an entry of the archive already has the new entry's date, the merge fails
  with \<open>DuplicateDateError\<close> and the archive file is left as it was; more generally,
  whenever the merge fails before it writes, that is, with any error other than the
  \<open>UnicodeEncodeError\<close> of \<open>write_text\<close>, the file is left as it was. The archive is a
  sequence of entries, that is, of dictionaries.
\<close>

theorem merge_duplicate_date:
  "(\<forall>entries. load_entries R path = Inr entries \<and> list_all is_dict entries
        \<and> list_ex (has_date (date entry)) entries
      \<longrightarrow> merge R path entry = (Inl DuplicateDateError, path))
   \<and> (\<forall>e. fst (merge R path entry) = Inl e \<and> e \<noteq> UnicodeEncodeError
      \<longrightarrow> snd (merge R path entry) = path)"
proof (intro conjI allI impI)
  fix entries
  assume "load_entries R path = Inr entries \<and> list_all is_dict entries
        \<and> list_ex (has_date (date entry)) entries"
  then show "merge R path entry = (Inl DuplicateDateError, path)"
    by (simp add: merge_duplicate)
next
  fix e assume "fst (merge R path entry) = Inl e \<and> e \<noteq> UnicodeEncodeError"
  then show "snd (merge R path entry) = path" by (simp add: merge_failure_keeps_store)
qed


section \<open>Two merges into an archive of one entry\<close>

lemma sample_archive_loads:
  "load_entries sample_runtime (Some sample_archive_text) = Inr [feb_entry]"
proof -
  have n: "sample_archive_text \<noteq> []"
    by (simp add: sample_archive_text_def quoted_def u_def)
  have "sample_loads sample_archive_text = Some (JArr [feb_entry])"
    by (simp add: sample_loads_def feb_entry_def)
      (simp add: sample_archive_text_def sample_flat_text_def sample_object_text_def
        sample_keyword_text_def quoted_def u_def)
  then show ?thesis
    using n by (simp add: load_entries_def py_json_loads_def sample_json_loads)
qed

lemma feb_entry_key: "is_dict feb_entry" "date_key feb_entry = JStr (u ''2025-02-01'')"
  by (simp_all add: feb_entry_def dict_get_def)



text \<open>
  The archive has an entry for the first of February: merging another one for that
  day fails and the file stays as it was.
\<close>

theorem merge_duplicate_date_witness:
  "merge sample_runtime (Some sample_archive_text) feb_new
     = (Inl DuplicateDateError, Some sample_archive_text)"
proof -
  have h: "list_ex (has_date (date feb_new)) [feb_entry]"
    by (simp add: has_date_def feb_entry_def feb_new_def dict_get_def)
  have d: "list_all is_dict [feb_entry]" by (simp add: feb_entry_key)
  from merge_duplicate_date [of sample_runtime "Some sample_archive_text" feb_new]
    sample_archive_loads h d
  show ?thesis by blast
qed

section \<open>Surrogates in the text of the small encoder\<close>
















section \<open>The two shapes of the collaborator's answer\<close>

lemma sample_text_defs:
  "sample_flat_text = [91, 123, 34, 119, 111, 114, 100, 34, 58, 32, 34, 97, 34, 44, 32, 34,
     119, 101, 105, 103, 104, 116, 34, 58, 32, 51, 125, 93]"
  "sample_object_text = [123, 34, 107, 101, 121, 119, 111, 114, 100, 115, 34, 58, 32, 91,
     123, 34, 119, 111, 114, 100, 34, 58, 32, 34, 97, 34, 44, 32, 34,
     119, 101, 105, 103, 104, 116, 34, 58, 32, 51, 125, 93, 125]"
  by (simp_all add: sample_flat_text_def sample_object_text_def sample_keyword_text_def
      quoted_def u_def)

lemma sample_loads_shapes:
  "py_json_loads sample_runtime sample_flat_text = Some (JArr [sample_keyword_value])"
  "py_json_loads sample_runtime sample_object_text
     = Some (JObj [(u ''keywords'', JArr [sample_keyword_value])])"
  by (simp_all add: py_json_loads_def sample_json_loads sample_loads_def u_brackets
      sample_text_defs)

lemma keywords_of_data_shapes:
  "keywords_of_data R (JArr items) = Inr (parse_items R items)"
  "map_of d (u ''keywords'') = Some (JArr items)
     \<Longrightarrow> keywords_of_data R (JObj d) = Inr (parse_items R items)"
  by (simp_all add: keywords_of_data_def)

lemma call_openai_keywords_object:
  assumes "py_json_loads R text = Some (JObj d)" "map_of d (u ''keywords'') = Some (JArr items)"
  shows "call_openai_keywords R text = canonicalize R items"
  using assms
  by (simp add: call_openai_keywords_def dict_get_def canonicalize_def split: sum.splits)

lemma canonicalize_total:
  "list_all is_dict items \<Longrightarrow> \<exists>kws. canonicalize R items = Inr kws"
  using enforce_keyword_rules_total [of items R] by (auto simp: canonicalize_def)

text \<open>
  A flat list has no \<open>get\<close>: \<open>call_openai_keywords\<close> raises on the first of the two
  shapes.
\<close>

theorem call_openai_keywords_counterexample:
  "call_openai_keywords sample_runtime sample_flat_text = Inl AttributeError"
  by (simp add: call_openai_keywords_def sample_loads_shapes)

text \<open>
  C4, amended. \<open>parse_keywords_json\<close> (\<open>gen_keywords.py\<close>) accepts both shapes of the
  answer, a flat list of keyword objects and an object carrying such a list under
  \<open>keywords\<close>, and extracts the same candidates from either without failing.
  \<open>call_openai_keywords\<close> (\<open>daily_build.py\<close>) accepts the object shape, which is the one
  it asks its collaborator for, and returns the canonical keywords of the list under
  \<open>keywords\<close>; on a flat list it raises \<open>AttributeError\<close>.
\<close>

theorem keyword_response_shapes:
  "(\<forall>items. py_json_loads R text = Some (JArr items)
       \<longrightarrow> parse_keywords_json R text = Inr (parse_items R items))
   \<and> (\<forall>d items. py_json_loads R text = Some (JObj d)
         \<and> map_of d (u ''keywords'') = Some (JArr items)
       \<longrightarrow> parse_keywords_json R text = Inr (parse_items R items))
   \<and> (\<forall>d items. py_json_loads R text = Some (JObj d)
         \<and> map_of d (u ''keywords'') = Some (JArr items) \<and> list_all is_dict items
       \<longrightarrow> (\<exists>kws. call_openai_keywords R text = Inr kws \<and> canonicalize R items = Inr kws))
   \<and> (\<forall>items. py_json_loads R text = Some (JArr items)
       \<longrightarrow> call_openai_keywords R text = Inl AttributeError)"
proof (intro conjI allI impI)
  fix items assume "py_json_loads R text = Some (JArr items)"
  then show "parse_keywords_json R text = Inr (parse_items R items)"
    by (simp add: parse_keywords_json_def keywords_of_data_shapes)
next
  fix d items
  assume "py_json_loads R text = Some (JObj d) \<and> map_of d (u ''keywords'') = Some (JArr items)"
  then show "parse_keywords_json R text = Inr (parse_items R items)"
    by (simp add: parse_keywords_json_def keywords_of_data_shapes)
next
  fix d items
  assume a: "py_json_loads R text = Some (JObj d)
         \<and> map_of d (u ''keywords'') = Some (JArr items) \<and> list_all is_dict items"
  then have "call_openai_keywords R text = canonicalize R items"
    by (simp add: call_openai_keywords_object)
  moreover from a obtain kws where "canonicalize R items = Inr kws"
    using canonicalize_total by blast
  ultimately show "\<exists>kws. call_openai_keywords R text = Inr kws \<and> canonicalize R items = Inr kws"
    by simp
next
  fix items assume "py_json_loads R text = Some (JArr items)"
  then show "call_openai_keywords R text = Inl AttributeError"
    by (simp add: call_openai_keywords_def)
qed

lemma sample_parse_items:
  "parse_items sample_runtime [sample_keyword_value] = [\<lparr>word = [97], weight = 3\<rparr>]"
proof -
  have a: "u ''a'' = [97]" by (simp add: u_def)
  show ?thesis
    by (simp add: sample_keyword_value_def dict_get_def u_word_simps py_str_def a
        normalize_word_eq sample_normalize_abc clamp_weight_def)
qed

text \<open>
  One keyword, sent in either shape: \<open>parse_keywords_json\<close> returns it from both, and
  \<open>call_openai_keywords\<close> returns it from the object.
\<close>

theorem keyword_response_shapes_witness:
  "parse_keywords_json sample_runtime sample_flat_text = Inr [\<lparr>word = [97], weight = 3\<rparr>]
   \<and> parse_keywords_json sample_runtime sample_object_text = Inr [\<lparr>word = [97], weight = 3\<rparr>]
   \<and> (\<exists>kws. call_openai_keywords sample_runtime sample_object_text = Inr kws)"
proof -
  have k: "map_of [(u ''keywords'', JArr [sample_keyword_value])] (u ''keywords'')
      = Some (JArr [sample_keyword_value])" by simp
  have d: "list_all is_dict [sample_keyword_value]" by (simp add: sample_keyword_value_def)
  from keyword_response_shapes [of sample_runtime sample_flat_text] sample_loads_shapes(1)
  have 1: "parse_keywords_json sample_runtime sample_flat_text
      = Inr (parse_items sample_runtime [sample_keyword_value])" by blast
  note t = keyword_response_shapes [of sample_runtime sample_object_text]
  from t sample_loads_shapes(2) k
  have 2: "parse_keywords_json sample_runtime sample_object_text
      = Inr (parse_items sample_runtime [sample_keyword_value])" by blast
  from t sample_loads_shapes(2) k d
  have 3: "\<exists>kws. call_openai_keywords sample_runtime sample_object_text = Inr kws" by blast
  from 1 2 3 show ?thesis unfolding sample_parse_items by blast
qed


end
